theory Spec2Isabelle
  imports Main "HOL-Library.AList"
begin

section \<open>The gRPC connection of the Firestore Node platform\<close>

text \<open>
  A shallow embedding of \<^verbatim>\<open>packages/firestore/src/platform_node/grpc_connection.ts\<close>.
  Every function of that file becomes a HOL function of the same name. The mutable
  fields of \<^verbatim>\<open>GrpcConnection\<close> and the variables captured by the closures of
  \<^verbatim>\<open>openStream\<close> become records that are passed in and returned. A \<^verbatim>\<open>throw\<close> is the
  \<open>Inl\<close> branch of a sum, returned together with the state as the throwing code left
  it. Calls of \<^verbatim>\<open>log.debug\<close> and \<^verbatim>\<open>log.error\<close> only write diagnostics: they touch no
  variable and decide no branch, and are left out.
\<close>

subsection \<open>Data\<close>

record DatabaseId =
  projectId :: string
  database :: string

record DatabaseInfo =
  databaseId :: DatabaseId
  host :: string

text \<open>
  A \<^verbatim>\<open>Token\<close> carries its kind and the object \<^verbatim>\<open>authHeaders\<close>, kept as the list of its
  own properties in enumeration order. The keys of an object are distinct.
\<close>

record Token =
  type :: string
  authHeaders :: "(string \<times> string) list"

text \<open>The three results a property read \<^verbatim>\<open>token && token.authHeaders[k]\<close> can have.\<close>

datatype JsValue = JsNull | JsUndefined | JsString string

text \<open>
  The module constants \<^verbatim>\<open>process.versions.node\<close>, \<^verbatim>\<open>firebase.SDK_VERSION\<close> and the
  version of the grpc package are read from the environment; they are parameters.
\<close>

record Versions =
  node :: string
  SDK_VERSION :: string
  grpcVersion :: string

definition X_GOOG_API_CLIENT_VALUE :: "Versions \<Rightarrow> string" where
  "X_GOOG_API_CLIENT_VALUE v =
     ''gl-node/'' @ node v @ '' fire/'' @ SDK_VERSION v @ '' grpc/'' @ grpcVersion v"

subsection \<open>Exceptions\<close>

text \<open>
  The assertions of the file, one constructor for each message:
  \<^item> \<open>TokenMustBeOAuth\<close>: \<^verbatim>\<open>If provided, token must be OAuth\<close>;
  \<^item> \<open>UnknownRPC name\<close>: \<^verbatim>\<open>Unknown RPC: \<close> followed by the name;
  \<^item> \<open>FinishWithoutClose\<close>: \<^verbatim>\<open>Received "finish" event without close() being called.\<close>;
  \<^item> \<open>StatusBeforeEnd code details\<close>: \<^verbatim>\<open>status event received before "end" or "error".\<close>
    followed by the code and the details of the status.

  \<open>TransportThrew\<close> is an exception raised inside the grpc library.
\<close>

datatype Assertion =
    TokenMustBeOAuth
  | UnknownRPC string
  | FinishWithoutClose
  | StatusBeforeEnd int string

datatype Thrown = AssertionFailed Assertion | TransportThrew string

text \<open>
  Modelled from the spec: \<^verbatim>\<open>assert\<close> of \<^verbatim>\<open>util/assert\<close> is not among the sources. A
  failed assertion is fatal: it throws, and nothing translates it.
\<close>

definition assert :: "bool \<Rightarrow> Assertion \<Rightarrow> Thrown + unit" where
  "assert assertion message = (if assertion then Inr () else Inl (AssertionFailed message))"

subsection \<open>Header composition\<close>

text \<open>
  Modelled from the spec: \<^verbatim>\<open>grpc.Metadata\<close> belongs to the transport library. It is a
  set of header entries with one value for each key, and \<^verbatim>\<open>set\<close> replaces the value
  of a key that is already there.
\<close>

type_synonym Metadata = "(string \<times> string) list"

definition Metadata_set :: "string \<Rightarrow> string \<Rightarrow> Metadata \<Rightarrow> Metadata" where
  "Metadata_set key val metadata = AList.update key val metadata"


text \<open>The loop \<^verbatim>\<open>for (const header in token.authHeaders)\<close> over the own properties.\<close>

fun setAuthHeaders :: "(string \<times> string) list \<Rightarrow> Metadata \<Rightarrow> Metadata" where
  "setAuthHeaders [] metadata = metadata"
| "setAuthHeaders ((header, val) # rest) metadata =
     setAuthHeaders rest (Metadata_set header val metadata)"

text \<open>
  The function handed to \<^verbatim>\<open>createFromMetadataGenerator\<close>. It ignores its context and
  passes the metadata to its continuation \<^verbatim>\<open>cb\<close> with no error; the model returns that
  metadata.
\<close>

definition metadataGenerator ::
  "Versions \<Rightarrow> DatabaseInfo \<Rightarrow> Token option \<Rightarrow> string \<Rightarrow> Metadata" where
  "metadataGenerator v dbInfo tok service_url =
     (let metadata0 = [];
          metadata1 = (case tok of
                         None \<Rightarrow> metadata0
                       | Some t \<Rightarrow> setAuthHeaders (authHeaders t) metadata0);
          metadata2 = Metadata_set ''x-goog-api-client'' (X_GOOG_API_CLIENT_VALUE v) metadata1
      in Metadata_set ''google-cloud-resource-prefix''
           (''projects/'' @ projectId (databaseId dbInfo) @ ''/'' @
            ''databases/'' @ database (databaseId dbInfo))
           metadata2)"

datatype ChannelCredentials = Ssl

record Credentials =
  channelCredentials :: ChannelCredentials
  callCredentials :: "string \<Rightarrow> Metadata"

definition createHeaders :: "Versions \<Rightarrow> DatabaseInfo \<Rightarrow> Token option \<Rightarrow> Thrown + Credentials" where
  "createHeaders v dbInfo tok =
     (case assert (case tok of None \<Rightarrow> True | Some t \<Rightarrow> type t = ''OAuth'') TokenMustBeOAuth of
        Inl e \<Rightarrow> Inl e
      | Inr _ \<Rightarrow>
          Inr \<lparr>channelCredentials = Ssl, callCredentials = metadataGenerator v dbInfo tok\<rparr>)"

subsection \<open>The stub cache\<close>

text \<open>
  A generated stub is an object: \<open>stubId\<close> is its identity, the number of stubs that
  were constructed before it. The constructor \<^verbatim>\<open>this.firestore.Firestore\<close> comes from
  the loaded protocol definition; it is the field \<open>firestore\<close>, which for a host and
  credentials either throws or gives the names of the methods of the new stub. Two
  counters record what a call has done: \<open>createHeadersCalls\<close> the calls of
  \<^verbatim>\<open>createHeaders\<close>, \<open>stubsConstructed\<close> the stubs the constructor has returned.
\<close>

record GeneratedGrpcStub =
  stubId :: nat
  stubHost :: string
  stubCredentials :: Credentials
  stubMethods :: "string list"

record CachedStub =
  stub :: GeneratedGrpcStub
  token :: "Token option"

record GrpcConnection =
  firestore :: "string \<Rightarrow> Credentials \<Rightarrow> Thrown + string list"
  databaseInfo :: DatabaseInfo
  cachedStub :: "CachedStub option"
  createHeadersCalls :: nat
  stubsConstructed :: nat

definition GrpcConnection_new ::
  "(string \<Rightarrow> Credentials \<Rightarrow> Thrown + string list) \<Rightarrow> DatabaseInfo \<Rightarrow> GrpcConnection" where
  "GrpcConnection_new protos dbInfo =
     \<lparr>firestore = protos, databaseInfo = dbInfo, cachedStub = None,
      createHeadersCalls = 0, stubsConstructed = 0\<rparr>"

text \<open>\<^verbatim>\<open>token && token.authHeaders['Authorization']\<close>\<close>

definition authorizationValue :: "Token option \<Rightarrow> JsValue" where
  "authorizationValue tok =
     (case tok of
        None \<Rightarrow> JsNull
      | Some t \<Rightarrow>
          (case map_of (authHeaders t) ''Authorization'' of
             None \<Rightarrow> JsUndefined
           | Some v \<Rightarrow> JsString v))"

definition sameToken :: "Token option \<Rightarrow> Token option \<Rightarrow> bool" where
  "sameToken tokenA tokenB =
     (let valueA = authorizationValue tokenA;
          valueB = authorizationValue tokenB
      in valueA = valueB)"

text \<open>
  The body of the \<^verbatim>\<open>if\<close> of \<^verbatim>\<open>ensureActiveStub\<close>: the headers, then the constructor,
  then the assignment to \<^verbatim>\<open>this.cachedStub\<close>. An exception of either of the first two
  leaves before the assignment.
\<close>

definition createStub ::
  "Versions \<Rightarrow> GrpcConnection \<Rightarrow> Token option \<Rightarrow> (Thrown + GeneratedGrpcStub) \<times> GrpcConnection" where
  "createStub v conn tok =
     (let conn1 = conn\<lparr>createHeadersCalls := Suc (createHeadersCalls conn)\<rparr> in
      case createHeaders v (databaseInfo conn1) tok of
        Inl e \<Rightarrow> (Inl e, conn1)
      | Inr credentials \<Rightarrow>
          (case firestore conn1 (host (databaseInfo conn1)) credentials of
             Inl e \<Rightarrow> (Inl e, conn1)
           | Inr methods \<Rightarrow>
               (let newStub = \<lparr>stubId = stubsConstructed conn1,
                               stubHost = host (databaseInfo conn1),
                               stubCredentials = credentials,
                               stubMethods = methods\<rparr>
                in (Inr newStub,
                    conn1\<lparr>cachedStub := Some \<lparr>stub = newStub, token = tok\<rparr>,
                          stubsConstructed := Suc (stubsConstructed conn1)\<rparr>))))"

definition ensureActiveStub ::
  "Versions \<Rightarrow> GrpcConnection \<Rightarrow> Token option \<Rightarrow> (Thrown + GeneratedGrpcStub) \<times> GrpcConnection" where
  "ensureActiveStub v conn tok =
     (case cachedStub conn of
        None \<Rightarrow> createStub v conn tok
      | Some cached \<Rightarrow>
          if \<not> sameToken (token cached) tok then createStub v conn tok
          else (Inr (stub cached), conn))"

text \<open>
  \<^verbatim>\<open>rpcName.charAt(0).toLowerCase()\<close>. A character of a \<open>string\<close> is a code unit below
  256. The upper-case letters there are A to Z (65 to 90) and the Latin-1 letters 192 to
  214 and 216 to 222; \<^verbatim>\<open>toLowerCase\<close> moves each of them 32 up to its lower-case form
  and leaves every other code unit as it is.
\<close>

definition toLowerCase :: "char \<Rightarrow> char" where
  "toLowerCase c =
     (let n = (of_char c :: nat) in
      if (65 \<le> n \<and> n \<le> 90) \<or> (192 \<le> n \<and> n \<le> 214) \<or> (216 \<le> n \<and> n \<le> 222)
      then char_of (n + 32) else c)"

record RpcCallable =
  boundStub :: GeneratedGrpcStub
  rpcMethod :: string

definition getRpcCallable ::
  "Versions \<Rightarrow> GrpcConnection \<Rightarrow> string \<Rightarrow> Token option \<Rightarrow> (Thrown + RpcCallable) \<times> GrpcConnection" where
  "getRpcCallable v conn rpcName tok =
     (let method = (case rpcName of [] \<Rightarrow> [] | c # cs \<Rightarrow> toLowerCase c # cs) in
      case ensureActiveStub v conn tok of
        (Inl e, conn') \<Rightarrow> (Inl e, conn')
      | (Inr s, conn') \<Rightarrow>
          (case assert (method \<in> set (stubMethods s)) (UnknownRPC rpcName) of
             Inl e \<Rightarrow> (Inl e, conn')
           | Inr _ \<Rightarrow> (Inr \<lparr>boundStub = s, rpcMethod = method\<rparr>, conn')))"

subsection \<open>Errors of a call\<close>

text \<open>
  \<^verbatim>\<open>grpc.ServiceError\<close> and \<^verbatim>\<open>grpc.StatusObject\<close> come from the transport. The table
  \<^verbatim>\<open>mapCodeFromRpcCode\<close> of \<^verbatim>\<open>remote/rpc_error\<close> is not among the sources: every function
  that calls it takes it as its first argument, a function from the status code to an
  error kind \<open>'k\<close>.
\<close>

record ServiceError =
  code :: int
  message :: string

datatype StatusObject = StatusObject int string

datatype 'k FirestoreError = FirestoreError 'k string

subsection \<open>Promises\<close>

text \<open>
  Modelled from the spec: a promise (the one inside \<^verbatim>\<open>Deferred\<close> of \<^verbatim>\<open>util/promise\<close> and
  the one \<^verbatim>\<open>nodePromise\<close> of \<^verbatim>\<open>util/node_api\<close> returns; neither file is among the
  sources) is pending until the first \<^verbatim>\<open>resolve\<close> or \<^verbatim>\<open>reject\<close>; whichever comes first
  settles it, and every later one changes nothing.
\<close>

datatype ('a, 'e) Promise = Pending | Resolved 'a | Rejected 'e

definition resolve :: "'a \<Rightarrow> ('a, 'e) Promise \<Rightarrow> ('a, 'e) Promise" where
  "resolve val p = (case p of Pending \<Rightarrow> Resolved val | _ \<Rightarrow> p)"

definition reject :: "'e \<Rightarrow> ('a, 'e) Promise \<Rightarrow> ('a, 'e) Promise" where
  "reject err p = (case p of Pending \<Rightarrow> Rejected err | _ \<Rightarrow> p)"

text \<open>
  Modelled from the spec: the callback \<^verbatim>\<open>nodePromise\<close> hands to its action rejects the
  promise when it is given an error and resolves it with the value otherwise. An
  argument that is \<^verbatim>\<open>undefined\<close> is \<open>None\<close>.
\<close>

definition nodeCallback ::
  "'e option \<Rightarrow> 'a option \<Rightarrow> ('a option, 'e) Promise \<Rightarrow> ('a option, 'e) Promise" where
  "nodeCallback error val p =
     (case error of Some e \<Rightarrow> reject e p | None \<Rightarrow> resolve val p)"

subsection \<open>Unary calls\<close>

text \<open>
  \<^verbatim>\<open>invokeRPC\<close> resolves the callable, starts the call and returns the promise;
  starting a call on the transport is taken to return. The function it passes to the
  transport is \<open>invokeRPC_callback\<close>, which the transport invokes later;
  \<open>unaryCallbacks\<close> runs the invocations the transport makes, in order.
\<close>

record ('req, 'resp, 'k) UnaryCall =
  unaryRpc :: RpcCallable
  unaryRequest :: 'req
  unaryPromise :: "('resp option, 'k FirestoreError) Promise"

definition invokeRPC ::
  "Versions \<Rightarrow> GrpcConnection \<Rightarrow> string \<Rightarrow> 'req \<Rightarrow> Token option \<Rightarrow>
   (Thrown + ('req, 'resp, 'k) UnaryCall) \<times> GrpcConnection" where
  "invokeRPC v conn rpcName request tok =
     (case getRpcCallable v conn rpcName tok of
        (Inl e, conn') \<Rightarrow> (Inl e, conn')
      | (Inr rpc, conn') \<Rightarrow>
          (Inr \<lparr>unaryRpc = rpc, unaryRequest = request, unaryPromise = Pending\<rparr>, conn'))"

definition invokeRPC_callback ::
  "(int \<Rightarrow> 'k) \<Rightarrow> ServiceError option \<Rightarrow> 'resp option \<Rightarrow>
   ('req, 'resp, 'k) UnaryCall \<Rightarrow> ('req, 'resp, 'k) UnaryCall" where
  "invokeRPC_callback mapCodeFromRpcCode grpcError val call =
     (case grpcError of
        Some err \<Rightarrow>
          call\<lparr>unaryPromise :=
            nodeCallback
              (Some (FirestoreError (mapCodeFromRpcCode (code err)) (message err)))
              None (unaryPromise call)\<rparr>
      | None \<Rightarrow>
          call\<lparr>unaryPromise := nodeCallback None val (unaryPromise call)\<rparr>)"

fun unaryCallbacks ::
  "(int \<Rightarrow> 'k) \<Rightarrow> (ServiceError option \<times> 'resp option) list \<Rightarrow>
   ('req, 'resp, 'k) UnaryCall \<Rightarrow> ('req, 'resp, 'k) UnaryCall" where
  "unaryCallbacks mapCodeFromRpcCode [] call = call"
| "unaryCallbacks mapCodeFromRpcCode ((grpcError, val) # rest) call =
     unaryCallbacks mapCodeFromRpcCode rest
       (invokeRPC_callback mapCodeFromRpcCode grpcError val call)"

subsection \<open>Server-streaming calls\<close>

text \<open>
  \<^verbatim>\<open>const results = []\<close> allocates an array, and \<^verbatim>\<open>responseDeferred.resolve(results)\<close>
  hands that same array to the promise. The arrays therefore live in a store,
  \<open>arrays\<close>, from references to contents; \<open>results\<close> is the reference the handlers
  captured and \<open>Resolved r\<close> holds a reference too.
\<close>

record ('req, 'resp, 'k) StreamingCall =
  streamingRpc :: RpcCallable
  streamingRequest :: 'req
  arrays :: "nat \<Rightarrow> 'resp list"
  results :: nat
  responseDeferred :: "(nat, 'k FirestoreError) Promise"

definition invokeStreamingRPC ::
  "Versions \<Rightarrow> GrpcConnection \<Rightarrow> string \<Rightarrow> 'req \<Rightarrow> Token option \<Rightarrow>
   (Thrown + ('req, 'resp, 'k) StreamingCall) \<times> GrpcConnection" where
  "invokeStreamingRPC v conn rpcName request tok =
     (case getRpcCallable v conn rpcName tok of
        (Inl e, conn') \<Rightarrow> (Inl e, conn')
      | (Inr rpc, conn') \<Rightarrow>
          (Inr \<lparr>streamingRpc = rpc, streamingRequest = request,
                arrays = (\<lambda>r. []), results = 0, responseDeferred = Pending\<rparr>, conn'))"

definition streaming_on_data ::
  "'resp \<Rightarrow> ('req, 'resp, 'k) StreamingCall \<Rightarrow> ('req, 'resp, 'k) StreamingCall" where
  "streaming_on_data response call =
     call\<lparr>arrays := (arrays call)(results call := arrays call (results call) @ [response])\<rparr>"

definition streaming_on_end ::
  "('req, 'resp, 'k) StreamingCall \<Rightarrow> ('req, 'resp, 'k) StreamingCall" where
  "streaming_on_end call =
     call\<lparr>responseDeferred := resolve (results call) (responseDeferred call)\<rparr>"

definition streaming_on_error ::
  "(int \<Rightarrow> 'k) \<Rightarrow> ServiceError \<Rightarrow> ('req, 'resp, 'k) StreamingCall \<Rightarrow>
   ('req, 'resp, 'k) StreamingCall" where
  "streaming_on_error mapCodeFromRpcCode grpcError call =
     (let kind = mapCodeFromRpcCode (code grpcError) in
      call\<lparr>responseDeferred :=
        reject (FirestoreError kind (message grpcError)) (responseDeferred call)\<rparr>)"

datatype 'resp ReadableEvent = DataEvent 'resp | EndEvent | ErrorEvent ServiceError

fun streamingEvents ::
  "(int \<Rightarrow> 'k) \<Rightarrow> 'resp ReadableEvent list \<Rightarrow> ('req, 'resp, 'k) StreamingCall \<Rightarrow>
   ('req, 'resp, 'k) StreamingCall" where
  "streamingEvents mapCodeFromRpcCode [] call = call"
| "streamingEvents mapCodeFromRpcCode (DataEvent response # rest) call =
     streamingEvents mapCodeFromRpcCode rest (streaming_on_data response call)"
| "streamingEvents mapCodeFromRpcCode (EndEvent # rest) call =
     streamingEvents mapCodeFromRpcCode rest (streaming_on_end call)"
| "streamingEvents mapCodeFromRpcCode (ErrorEvent grpcError # rest) call =
     streamingEvents mapCodeFromRpcCode rest
       (streaming_on_error mapCodeFromRpcCode grpcError call)"

text \<open>
  What the holder of the promise sees: nothing while it is pending, the error it was
  rejected with, or the present contents of the array it was resolved with.
\<close>

definition settled ::
  "('req, 'resp, 'k) StreamingCall \<Rightarrow> ('k FirestoreError + 'resp list) option" where
  "settled call =
     (case responseDeferred call of
        Pending \<Rightarrow> None
      | Resolved r \<Rightarrow> Some (Inr (arrays call r))
      | Rejected e \<Rightarrow> Some (Inl e))"

fun responsesOf :: "'resp ReadableEvent list \<Rightarrow> 'resp list" where
  "responsesOf [] = []"
| "responsesOf (DataEvent response # rest) = response # responsesOf rest"
| "responsesOf (ev # rest) = responsesOf rest"

subsection \<open>Duplex streams\<close>

text \<open>
  The variables the closures of \<^verbatim>\<open>openStream\<close> share are the fields of a record:
  \<open>closed\<close> is \<^verbatim>\<open>closed\<close>; \<open>openTimer\<close> says that the callback given to \<^verbatim>\<open>setTimeout\<close>
  has not run yet; \<open>grpcCalls\<close> lists the calls made on \<^verbatim>\<open>grpcStream\<close>, in order.

  Modelled from the spec: \<^verbatim>\<open>StreamBridge\<close> of \<^verbatim>\<open>remote/stream_bridge\<close> is not among the
  sources. Its \<^verbatim>\<open>callOnOpen\<close>, \<^verbatim>\<open>callOnMessage\<close> and \<^verbatim>\<open>callOnClose\<close> run the callback the
  caller registered; \<open>delivered\<close> lists these deliveries in order. Its \<^verbatim>\<open>send\<close> and
  \<^verbatim>\<open>close\<close> call \<^verbatim>\<open>sendFn\<close> and \<^verbatim>\<open>closeFn\<close>.
\<close>

datatype ('resp, 'k) Delivery =
    OnOpen
  | OnMessage 'resp
  | OnClose "'k FirestoreError option"

datatype 'req GrpcCall = Write 'req | EndCall

record ('req, 'resp, 'k) DuplexStream =
  closed :: bool
  openTimer :: bool
  delivered :: "('resp, 'k) Delivery list"
  grpcCalls :: "'req GrpcCall list"

definition callOnOpen ::
  "('req, 'resp, 'k) DuplexStream \<Rightarrow> ('req, 'resp, 'k) DuplexStream" where
  "callOnOpen s = s\<lparr>delivered := delivered s @ [OnOpen]\<rparr>"

definition callOnMessage ::
  "'resp \<Rightarrow> ('req, 'resp, 'k) DuplexStream \<Rightarrow> ('req, 'resp, 'k) DuplexStream" where
  "callOnMessage msg s = s\<lparr>delivered := delivered s @ [OnMessage msg]\<rparr>"

definition callOnClose ::
  "'k FirestoreError option \<Rightarrow> ('req, 'resp, 'k) DuplexStream \<Rightarrow>
   ('req, 'resp, 'k) DuplexStream" where
  "callOnClose err s = s\<lparr>delivered := delivered s @ [OnClose err]\<rparr>"

text \<open>
  \<^verbatim>\<open>grpcStream.write\<close> belongs to the transport: \<open>grpcWrite msg\<close> is the exception it
  throws for \<open>msg\<close>, if any. \<^verbatim>\<open>sendFn\<close> catches it only to rethrow it.
\<close>

definition sendFn ::
  "('req \<Rightarrow> Thrown option) \<Rightarrow> 'req \<Rightarrow> ('req, 'resp, 'k) DuplexStream \<Rightarrow>
   (Thrown + unit) \<times> ('req, 'resp, 'k) DuplexStream" where
  "sendFn grpcWrite msg s =
     (if \<not> closed s then
        (let s1 = s\<lparr>grpcCalls := grpcCalls s @ [Write msg]\<rparr> in
         case grpcWrite msg of
           Some e \<Rightarrow> (Inl e, s1)
         | None \<Rightarrow> (Inr (), s1))
      else (Inr (), s))"

definition close ::
  "'k FirestoreError option \<Rightarrow> ('req, 'resp, 'k) DuplexStream \<Rightarrow>
   ('req, 'resp, 'k) DuplexStream" where
  "close err s =
     (if \<not> closed s then
        (let s1 = s\<lparr>closed := True\<rparr>;
             s2 = callOnClose err s1
         in s2\<lparr>grpcCalls := grpcCalls s2 @ [EndCall]\<rparr>)
      else s)"

definition closeFn ::
  "('req, 'resp, 'k) DuplexStream \<Rightarrow> ('req, 'resp, 'k) DuplexStream" where
  "closeFn s = close None s"

text \<open>The listeners registered on \<^verbatim>\<open>grpcStream\<close>, and the callback of the timer.\<close>

definition on_data ::
  "'resp \<Rightarrow> ('req, 'resp, 'k) DuplexStream \<Rightarrow> ('req, 'resp, 'k) DuplexStream" where
  "on_data msg s = (if \<not> closed s then callOnMessage msg s else s)"

definition on_end ::
  "('req, 'resp, 'k) DuplexStream \<Rightarrow> ('req, 'resp, 'k) DuplexStream" where
  "on_end s = close None s"

definition on_finish ::
  "('req, 'resp, 'k) DuplexStream \<Rightarrow> (Thrown + unit) \<times> ('req, 'resp, 'k) DuplexStream" where
  "on_finish s = (assert (closed s) FinishWithoutClose, s)"

definition on_error ::
  "(int \<Rightarrow> 'k) \<Rightarrow> ServiceError \<Rightarrow> ('req, 'resp, 'k) DuplexStream \<Rightarrow>
   ('req, 'resp, 'k) DuplexStream" where
  "on_error mapCodeFromRpcCode grpcError s =
     (let kind = mapCodeFromRpcCode (code grpcError) in
      close (Some (FirestoreError kind (message grpcError))) s)"

definition on_status ::
  "StatusObject \<Rightarrow> ('req, 'resp, 'k) DuplexStream \<Rightarrow>
   (Thrown + unit) \<times> ('req, 'resp, 'k) DuplexStream" where
  "on_status status s =
     (case status of
        StatusObject statusCode details \<Rightarrow>
          (assert (closed s) (StatusBeforeEnd statusCode details), s))"

definition on_timeout ::
  "('req, 'resp, 'k) DuplexStream \<Rightarrow> ('req, 'resp, 'k) DuplexStream" where
  "on_timeout s = callOnOpen s"

definition openStream ::
  "Versions \<Rightarrow> GrpcConnection \<Rightarrow> string \<Rightarrow> Token option \<Rightarrow>
   (Thrown + ('req, 'resp, 'k) DuplexStream) \<times> GrpcConnection" where
  "openStream v conn rpcName tok =
     (case getRpcCallable v conn rpcName tok of
        (Inl e, conn') \<Rightarrow> (Inl e, conn')
      | (Inr rpc, conn') \<Rightarrow>
          (Inr \<lparr>closed = False, openTimer = True, delivered = [], grpcCalls = []\<rparr>, conn'))"

text \<open>
  What can happen to a stream after \<^verbatim>\<open>openStream\<close> has returned: the caller calls
  \<^verbatim>\<open>send\<close> or \<^verbatim>\<open>close\<close> on the bridge, \<^verbatim>\<open>grpcStream\<close> emits one of its five events, or the
  timer runs its callback, which the runtime does once. Each is handled to its end
  before the next one starts. \<open>run\<close> handles a list of them in order; what a handler
  throws goes to whoever called it, and the variables stay as the handler left them.
\<close>

datatype ('req, 'resp) StreamEvent =
    Send 'req
  | Close
  | GrpcData 'resp
  | GrpcEnd
  | GrpcFinish
  | GrpcError ServiceError
  | GrpcStatus StatusObject
  | Timeout

fun dispatch ::
  "(int \<Rightarrow> 'k) \<Rightarrow> ('req \<Rightarrow> Thrown option) \<Rightarrow> ('req, 'resp) StreamEvent \<Rightarrow>
   ('req, 'resp, 'k) DuplexStream \<Rightarrow> (Thrown + unit) \<times> ('req, 'resp, 'k) DuplexStream" where
  "dispatch mapCodeFromRpcCode grpcWrite (Send msg) s = sendFn grpcWrite msg s"
| "dispatch mapCodeFromRpcCode grpcWrite Close s = (Inr (), closeFn s)"
| "dispatch mapCodeFromRpcCode grpcWrite (GrpcData msg) s = (Inr (), on_data msg s)"
| "dispatch mapCodeFromRpcCode grpcWrite GrpcEnd s = (Inr (), on_end s)"
| "dispatch mapCodeFromRpcCode grpcWrite GrpcFinish s = on_finish s"
| "dispatch mapCodeFromRpcCode grpcWrite (GrpcError grpcError) s =
     (Inr (), on_error mapCodeFromRpcCode grpcError s)"
| "dispatch mapCodeFromRpcCode grpcWrite (GrpcStatus status) s = on_status status s"
| "dispatch mapCodeFromRpcCode grpcWrite Timeout s =
     (if openTimer s then (Inr (), on_timeout (s\<lparr>openTimer := False\<rparr>)) else (Inr (), s))"

fun run ::
  "(int \<Rightarrow> 'k) \<Rightarrow> ('req \<Rightarrow> Thrown option) \<Rightarrow> ('req, 'resp) StreamEvent list \<Rightarrow>
   ('req, 'resp, 'k) DuplexStream \<Rightarrow> ('req, 'resp, 'k) DuplexStream" where
  "run mapCodeFromRpcCode grpcWrite [] s = s"
| "run mapCodeFromRpcCode grpcWrite (ev # evs) s =
     run mapCodeFromRpcCode grpcWrite evs (snd (dispatch mapCodeFromRpcCode grpcWrite ev s))"

subsection \<open>Reading a run\<close>

text \<open>
  The argument \<^verbatim>\<open>close\<close> gets from the first of the three close triggers in a list of
  events, if there is one, and the messages \<^verbatim>\<open>grpcStream\<close> emits before that trigger.
\<close>

fun firstCloseTrigger ::
  "(int \<Rightarrow> 'k) \<Rightarrow> ('req, 'resp) StreamEvent list \<Rightarrow> 'k FirestoreError option option" where
  "firstCloseTrigger mapCodeFromRpcCode [] = None"
| "firstCloseTrigger mapCodeFromRpcCode (Close # evs) = Some None"
| "firstCloseTrigger mapCodeFromRpcCode (GrpcEnd # evs) = Some None"
| "firstCloseTrigger mapCodeFromRpcCode (GrpcError grpcError # evs) =
     Some (Some (FirestoreError (mapCodeFromRpcCode (code grpcError)) (message grpcError)))"
| "firstCloseTrigger mapCodeFromRpcCode (ev # evs) = firstCloseTrigger mapCodeFromRpcCode evs"

fun messagesBeforeClose :: "('req, 'resp) StreamEvent list \<Rightarrow> 'resp list" where
  "messagesBeforeClose [] = []"
| "messagesBeforeClose (Close # evs) = []"
| "messagesBeforeClose (GrpcEnd # evs) = []"
| "messagesBeforeClose (GrpcError grpcError # evs) = []"
| "messagesBeforeClose (GrpcData msg # evs) = msg # messagesBeforeClose evs"
| "messagesBeforeClose (ev # evs) = messagesBeforeClose evs"

fun isClose :: "('resp, 'k) Delivery \<Rightarrow> bool" where
  "isClose (OnClose err) = True"
| "isClose d = False"

fun isOpen :: "('resp, 'k) Delivery \<Rightarrow> bool" where
  "isOpen OnOpen = True"
| "isOpen d = False"

definition closeDelivery :: "'k FirestoreError option option \<Rightarrow> ('resp, 'k) Delivery list" where
  "closeDelivery trigger = (case trigger of None \<Rightarrow> [] | Some err \<Rightarrow> [OnClose err])"

text \<open>
  The order of deliveries the specification asks for, on a list of deliveries made so
  far: the open first, then messages, then at most one close, and nothing after it.
\<close>

fun afterOpen :: "('resp, 'k) Delivery list \<Rightarrow> bool" where
  "afterOpen [] = True"
| "afterOpen (OnMessage msg # rest) = afterOpen rest"
| "afterOpen [OnClose err] = True"
| "afterOpen rest = False"

fun strictlyOrdered :: "('resp, 'k) Delivery list \<Rightarrow> bool" where
  "strictlyOrdered [] = True"
| "strictlyOrdered (OnOpen # rest) = afterOpen rest"
| "strictlyOrdered rest = False"

subsection \<open>Example values\<close>

definition exampleVersions :: Versions where
  "exampleVersions = \<lparr>node = ''8.9.4'', SDK_VERSION = ''0.3.0'', grpcVersion = ''1.9.1''\<rparr>"

definition exampleDatabase :: DatabaseInfo where
  "exampleDatabase = \<lparr>databaseId = \<lparr>projectId = ''p'', database = ''d''\<rparr>, host = ''h''\<rparr>"

definition exampleProtos :: "string \<Rightarrow> Credentials \<Rightarrow> Thrown + string list" where
  "exampleProtos h credentials = Inr [''listen'', ''commit'', ''batchGetDocuments'']"

definition exampleStub :: "nat \<Rightarrow> Token option \<Rightarrow> GeneratedGrpcStub" where
  "exampleStub n tok =
     \<lparr>stubId = n, stubHost = ''h'',
      stubCredentials =
        \<lparr>channelCredentials = Ssl,
         callCredentials = metadataGenerator exampleVersions exampleDatabase tok\<rparr>,
      stubMethods = [''listen'', ''commit'', ''batchGetDocuments'']\<rparr>"

definition exampleConnection :: GrpcConnection where
  "exampleConnection = GrpcConnection_new exampleProtos exampleDatabase"

definition oauth :: "(string \<times> string) list \<Rightarrow> Token" where
  "oauth headers = \<lparr>type = ''OAuth'', authHeaders = headers\<rparr>"

definition exampleFailingProtos :: "string \<Rightarrow> Credentials \<Rightarrow> Thrown + string list" where
  "exampleFailingProtos h credentials = Inl (TransportThrew ''channel'')"

definition exampleMapCode :: "int \<Rightarrow> string" where
  "exampleMapCode c = (if c = 14 then ''unavailable'' else ''unknown'')"

definition exampleWrite :: "string \<Rightarrow> Thrown option" where
  "exampleWrite msg = (if msg = [] then Some (TransportThrew ''empty message'') else None)"

section \<open>Properties\<close>

subsection \<open>The stub cache and the headers\<close>




lemma createStub_cases:
  "createStub v conn tok = (r, conn') \<Longrightarrow>
     (\<exists>e. r = Inl e \<and> conn' = conn\<lparr>createHeadersCalls := Suc (createHeadersCalls conn)\<rparr>) \<or>
     (\<exists>s. r = Inr s \<and> stubId s = stubsConstructed conn \<and>
        conn' = conn\<lparr>createHeadersCalls := Suc (createHeadersCalls conn),
                      cachedStub := Some \<lparr>stub = s, token = tok\<rparr>,
                      stubsConstructed := Suc (stubsConstructed conn)\<rparr>)"
  by (auto simp: createStub_def Let_def split: sum.splits)

lemma toLowerCase_L: "toLowerCase CHR ''L'' = CHR ''l''"
  by code_simp

lemma toLowerCase_examples:
  "toLowerCase CHR ''C'' = CHR ''c''" "toLowerCase CHR ''B'' = CHR ''b''"
  by code_simp+

lemma example_ensureActiveStub:
  "ensureActiveStub exampleVersions exampleConnection None =
     (Inr (exampleStub 0 None),
      exampleConnection\<lparr>createHeadersCalls := 1,
        cachedStub := Some \<lparr>stub = exampleStub 0 None, token = None\<rparr>,
        stubsConstructed := 1\<rparr>)"
  by (simp add: ensureActiveStub_def createStub_def createHeaders_def assert_def
        exampleConnection_def GrpcConnection_new_def exampleProtos_def exampleStub_def
        exampleDatabase_def Let_def)

lemma example_getRpcCallable:
  "getRpcCallable exampleVersions exampleConnection ''Listen'' None =
    (Inr \<lparr>boundStub = \<lparr>stubId = 0, stubHost = ''h'',
            stubCredentials = \<lparr>channelCredentials = Ssl,
               callCredentials = metadataGenerator exampleVersions exampleDatabase None\<rparr>,
            stubMethods = [''listen'', ''commit'', ''batchGetDocuments'']\<rparr>,
          rpcMethod = ''listen''\<rparr>,
     exampleConnection\<lparr>createHeadersCalls := 1,
        cachedStub := Some \<lparr>stub = \<lparr>stubId = 0, stubHost = ''h'',
            stubCredentials = \<lparr>channelCredentials = Ssl,
               callCredentials = metadataGenerator exampleVersions exampleDatabase None\<rparr>,
            stubMethods = [''listen'', ''commit'', ''batchGetDocuments'']\<rparr>, token = None\<rparr>,
        stubsConstructed := 1\<rparr>)"
  by (simp add: getRpcCallable_def ensureActiveStub_def createStub_def createHeaders_def
        assert_def exampleConnection_def GrpcConnection_new_def exampleProtos_def
        exampleDatabase_def toLowerCase_L Let_def)

lemma sameToken_iff:
  "sameToken a b =
     (case a of
        None \<Rightarrow> b = None
      | Some ta \<Rightarrow>
          (case b of
             None \<Rightarrow> False
           | Some tb \<Rightarrow>
               map_of (authHeaders ta) ''Authorization'' =
               map_of (authHeaders tb) ''Authorization''))"
  by (auto simp: sameToken_def authorizationValue_def split: option.splits)

lemma createStub_built:
  "createHeaders v (databaseInfo conn) tok = Inr c \<Longrightarrow>
   firestore conn (host (databaseInfo conn)) c = Inr ms \<Longrightarrow>
   createStub v conn tok =
     (Inr \<lparr>stubId = stubsConstructed conn, stubHost = host (databaseInfo conn),
            stubCredentials = c, stubMethods = ms\<rparr>,
      conn\<lparr>createHeadersCalls := Suc (createHeadersCalls conn),
            cachedStub := Some \<lparr>stub = \<lparr>stubId = stubsConstructed conn,
                                          stubHost = host (databaseInfo conn),
                                          stubCredentials = c, stubMethods = ms\<rparr>,
                                 token = tok\<rparr>,
            stubsConstructed := Suc (stubsConstructed conn)\<rparr>)"
  by (simp add: createStub_def Let_def)

lemma createStub_headers_throw:
  "createHeaders v (databaseInfo conn) tok = Inl e \<Longrightarrow>
   createStub v conn tok =
     (Inl e, conn\<lparr>createHeadersCalls := Suc (createHeadersCalls conn)\<rparr>)"
  by (simp add: createStub_def Let_def)

lemma createStub_constructor_throws:
  "createHeaders v (databaseInfo conn) tok = Inr c \<Longrightarrow>
   firestore conn (host (databaseInfo conn)) c = Inl e \<Longrightarrow>
   createStub v conn tok =
     (Inl e, conn\<lparr>createHeadersCalls := Suc (createHeadersCalls conn)\<rparr>)"
  by (simp add: createStub_def Let_def)

lemma ensureActiveStub_miss:
  "cachedStub conn = None \<or>
   (\<exists>cached. cachedStub conn = Some cached \<and> \<not> sameToken (token cached) tok) \<Longrightarrow>
   ensureActiveStub v conn tok = createStub v conn tok"
  by (auto simp: ensureActiveStub_def)

lemma ensureActiveStub_hit:
  "cachedStub conn = Some cached \<Longrightarrow> sameToken (token cached) tok \<Longrightarrow>
   ensureActiveStub v conn tok = (Inr (stub cached), conn)"
  by (simp add: ensureActiveStub_def)

text \<open>
  Claim C3, amended. Two tokens are equivalent exactly when both are absent, or both are
  present and their \<^verbatim>\<open>Authorization\<close> headers are both missing or hold the same value. In
  every state of the connection, and so after any sequence of earlier calls,
  \<^verbatim>\<open>ensureActiveStub(token)\<close> constructs a new stub if and only if there is no cached stub
  or the cached token is not equivalent to \<open>token\<close>, and neither \<^verbatim>\<open>createHeaders\<close> nor the
  constructor throws; the call then returns that stub, which has a fresh identity, the
  host of the target and the credentials \<^verbatim>\<open>createHeaders\<close> made, and caches it together
  with \<open>token\<close>. A call that constructs nothing leaves the cache as it was. When a stub
  is cached and the tokens are equivalent, the cached stub is returned and the
  connection is unchanged: no headers were computed and nothing was constructed.
\<close>

theorem ensureActiveStub_constructs_iff:
  "sameToken a b =
     (case a of
        None \<Rightarrow> b = None
      | Some ta \<Rightarrow>
          (case b of
             None \<Rightarrow> False
           | Some tb \<Rightarrow>
               map_of (authHeaders ta) ''Authorization'' =
               map_of (authHeaders tb) ''Authorization'')) \<and>
   ((stubsConstructed (snd (ensureActiveStub v conn tok)) = Suc (stubsConstructed conn)) =
      ((cachedStub conn = None \<or>
        (\<exists>cached. cachedStub conn = Some cached \<and> \<not> sameToken (token cached) tok)) \<and>
       (\<exists>c ms. createHeaders v (databaseInfo conn) tok = Inr c \<and>
               firestore conn (host (databaseInfo conn)) c = Inr ms))) \<and>
   ((cachedStub conn = None \<or>
     (\<exists>cached. cachedStub conn = Some cached \<and> \<not> sameToken (token cached) tok)) \<and>
    createHeaders v (databaseInfo conn) tok = Inr c \<and>
    firestore conn (host (databaseInfo conn)) c = Inr ms \<longrightarrow>
      ensureActiveStub v conn tok =
        (Inr \<lparr>stubId = stubsConstructed conn, stubHost = host (databaseInfo conn),
               stubCredentials = c, stubMethods = ms\<rparr>,
         conn\<lparr>createHeadersCalls := Suc (createHeadersCalls conn),
               cachedStub := Some \<lparr>stub = \<lparr>stubId = stubsConstructed conn,
                                             stubHost = host (databaseInfo conn),
                                             stubCredentials = c, stubMethods = ms\<rparr>,
                                    token = tok\<rparr>,
               stubsConstructed := Suc (stubsConstructed conn)\<rparr>)) \<and>
   (stubsConstructed (snd (ensureActiveStub v conn tok)) \<noteq> Suc (stubsConstructed conn) \<longrightarrow>
      stubsConstructed (snd (ensureActiveStub v conn tok)) = stubsConstructed conn \<and>
      cachedStub (snd (ensureActiveStub v conn tok)) = cachedStub conn) \<and>
   (\<forall>cached. cachedStub conn = Some cached \<and> sameToken (token cached) tok \<longrightarrow>
      ensureActiveStub v conn tok = (Inr (stub cached), conn))"
proof -
  let ?miss = "cachedStub conn = None \<or>
    (\<exists>cached. cachedStub conn = Some cached \<and> \<not> sameToken (token cached) tok)"
  let ?built = "\<exists>c ms. createHeaders v (databaseInfo conn) tok = Inr c \<and>
    firestore conn (host (databaseInfo conn)) c = Inr ms"
  let ?r = "ensureActiveStub v conn tok"
  have built: "ensureActiveStub v conn tok =
        (Inr \<lparr>stubId = stubsConstructed conn, stubHost = host (databaseInfo conn),
               stubCredentials = c, stubMethods = ms\<rparr>,
         conn\<lparr>createHeadersCalls := Suc (createHeadersCalls conn),
               cachedStub := Some \<lparr>stub = \<lparr>stubId = stubsConstructed conn,
                                             stubHost = host (databaseInfo conn),
                                             stubCredentials = c, stubMethods = ms\<rparr>,
                                    token = tok\<rparr>,
               stubsConstructed := Suc (stubsConstructed conn)\<rparr>)"
    if "?miss" "createHeaders v (databaseInfo conn) tok = Inr c"
       "firestore conn (host (databaseInfo conn)) c = Inr ms" for c ms
    using that by (simp only: ensureActiveStub_miss createStub_built)
  have hit: "ensureActiveStub v conn tok = (Inr (stub cached), conn)"
    if "cachedStub conn = Some cached" "sameToken (token cached) tok" for cached
    using that by (rule ensureActiveStub_hit)
  have counted: "(stubsConstructed (snd ?r) = Suc (stubsConstructed conn)) = (?miss \<and> ?built)"
  proof (cases ?miss)
    case False
    then obtain cached where "cachedStub conn = Some cached" "sameToken (token cached) tok"
      by auto
    then have "?r = (Inr (stub cached), conn)" by (rule hit)
    with False show ?thesis by simp
  next
    case True
    then have r: "?r = createStub v conn tok" by (rule ensureActiveStub_miss)
    show ?thesis
    proof (cases "createHeaders v (databaseInfo conn) tok")
      case (Inl e)
      then show ?thesis using True by (simp add: r createStub_headers_throw)
    next
      case (Inr c)
      show ?thesis
      proof (cases "firestore conn (host (databaseInfo conn)) c")
        case (Inl e)
        then show ?thesis using True Inr by (simp add: r createStub_constructor_throws)
      next
        case ms: (Inr ms)
        then show ?thesis using True Inr by (simp add: r createStub_built)
      qed
    qed
  qed
  have kept: "stubsConstructed (snd ?r) = stubsConstructed conn \<and>
      cachedStub (snd ?r) = cachedStub conn"
    if "stubsConstructed (snd ?r) \<noteq> Suc (stubsConstructed conn)"
  proof (cases ?miss)
    case False
    then obtain cached where "cachedStub conn = Some cached" "sameToken (token cached) tok"
      by auto
    then have "?r = (Inr (stub cached), conn)" by (rule hit)
    then show ?thesis by simp
  next
    case True
    then have r: "?r = createStub v conn tok" by (rule ensureActiveStub_miss)
    obtain x conn' where x: "createStub v conn tok = (x, conn')"
      by (cases "createStub v conn tok")
    from createStub_cases [OF x] that show ?thesis
      by (auto simp: r x)
  qed
  have same: "sameToken a b =
     (case a of
        None \<Rightarrow> b = None
      | Some ta \<Rightarrow>
          (case b of
             None \<Rightarrow> False
           | Some tb \<Rightarrow>
               map_of (authHeaders ta) ''Authorization'' =
               map_of (authHeaders tb) ''Authorization''))"
    by (rule sameToken_iff)
  show ?thesis
  proof (intro conjI impI allI)
    show "sameToken a b =
     (case a of
        None \<Rightarrow> b = None
      | Some ta \<Rightarrow>
          (case b of
             None \<Rightarrow> False
           | Some tb \<Rightarrow>
               map_of (authHeaders ta) ''Authorization'' =
               map_of (authHeaders tb) ''Authorization''))"
      by (rule same)
  next
    show "(stubsConstructed (snd ?r) = Suc (stubsConstructed conn)) = (?miss \<and> ?built)"
      by (rule counted)
  next
    assume "?miss \<and> createHeaders v (databaseInfo conn) tok = Inr c \<and>
      firestore conn (host (databaseInfo conn)) c = Inr ms"
    then show "ensureActiveStub v conn tok =
        (Inr \<lparr>stubId = stubsConstructed conn, stubHost = host (databaseInfo conn),
               stubCredentials = c, stubMethods = ms\<rparr>,
         conn\<lparr>createHeadersCalls := Suc (createHeadersCalls conn),
               cachedStub := Some \<lparr>stub = \<lparr>stubId = stubsConstructed conn,
                                             stubHost = host (databaseInfo conn),
                                             stubCredentials = c, stubMethods = ms\<rparr>,
                                    token = tok\<rparr>,
               stubsConstructed := Suc (stubsConstructed conn)\<rparr>)"
      by (elim conjE) (rule built)
  next
    assume "stubsConstructed (snd ?r) \<noteq> Suc (stubsConstructed conn)"
    from kept [OF this] show "stubsConstructed (snd ?r) = stubsConstructed conn"
      by (rule conjunct1)
  next
    assume "stubsConstructed (snd ?r) \<noteq> Suc (stubsConstructed conn)"
    from kept [OF this] show "cachedStub (snd ?r) = cachedStub conn"
      by (rule conjunct2)
  next
    fix cached
    assume "cachedStub conn = Some cached \<and> sameToken (token cached) tok"
    then show "ensureActiveStub v conn tok = (Inr (stub cached), conn)"
      by (elim conjE) (rule hit)
  qed
qed

text \<open>
  An instance of C3: a token with the same \<^verbatim>\<open>Authorization\<close> value and another trace header
  gets the cached stub; a token with another \<^verbatim>\<open>Authorization\<close> value gets stub number 1.
\<close>

theorem ensureActiveStub_constructs_iff_witness:
  "ensureActiveStub exampleVersions
     (exampleConnection\<lparr>createHeadersCalls := 1,
        cachedStub := Some \<lparr>stub = exampleStub 0 (Some (oauth [(''Authorization'', ''Bearer a''), (''X-Trace'', ''1'')])),
                            token = Some (oauth [(''Authorization'', ''Bearer a''), (''X-Trace'', ''1'')])\<rparr>,
        stubsConstructed := 1\<rparr>)
     (Some (oauth [(''Authorization'', ''Bearer a''), (''X-Trace'', ''2'')])) =
     (Inr (exampleStub 0 (Some (oauth [(''Authorization'', ''Bearer a''), (''X-Trace'', ''1'')]))),
      exampleConnection\<lparr>createHeadersCalls := 1,
        cachedStub := Some \<lparr>stub = exampleStub 0 (Some (oauth [(''Authorization'', ''Bearer a''), (''X-Trace'', ''1'')])),
                            token = Some (oauth [(''Authorization'', ''Bearer a''), (''X-Trace'', ''1'')])\<rparr>,
        stubsConstructed := 1\<rparr>) \<and>
   ensureActiveStub exampleVersions
     (exampleConnection\<lparr>createHeadersCalls := 1,
        cachedStub := Some \<lparr>stub = exampleStub 0 (Some (oauth [(''Authorization'', ''Bearer a''), (''X-Trace'', ''1'')])),
                            token = Some (oauth [(''Authorization'', ''Bearer a''), (''X-Trace'', ''1'')])\<rparr>,
        stubsConstructed := 1\<rparr>)
     (Some (oauth [(''Authorization'', ''Bearer b'')])) =
     (Inr (exampleStub 1 (Some (oauth [(''Authorization'', ''Bearer b'')]))),
      exampleConnection\<lparr>createHeadersCalls := 2,
        cachedStub := Some \<lparr>stub = exampleStub 1 (Some (oauth [(''Authorization'', ''Bearer b'')])),
                            token = Some (oauth [(''Authorization'', ''Bearer b'')])\<rparr>,
        stubsConstructed := 2\<rparr>) \<and>
   sameToken (Some (oauth [(''Authorization'', ''Bearer a''), (''X-Trace'', ''1'')]))
     (Some (oauth [(''Authorization'', ''Bearer a''), (''X-Trace'', ''2'')])) \<and>
   \<not> sameToken (Some (oauth [(''Authorization'', ''Bearer a''), (''X-Trace'', ''1'')]))
     (Some (oauth [(''Authorization'', ''Bearer b'')]))"
proof -
  let ?a1 = "Some (oauth [(''Authorization'', ''Bearer a''), (''X-Trace'', ''1'')])"
  let ?a2 = "Some (oauth [(''Authorization'', ''Bearer a''), (''X-Trace'', ''2'')])"
  let ?b = "Some (oauth [(''Authorization'', ''Bearer b'')])"
  let ?c1 = "exampleConnection\<lparr>createHeadersCalls := 1,
        cachedStub := Some \<lparr>stub = exampleStub 0 ?a1, token = ?a1\<rparr>,
        stubsConstructed := 1\<rparr>"
  let ?cb = "\<lparr>channelCredentials = Ssl,
        callCredentials = metadataGenerator exampleVersions exampleDatabase ?b\<rparr>"
  let ?ms = "[''listen'', ''commit'', ''batchGetDocuments'']"
  note hit = ensureActiveStub_constructs_iff [where a = ?a1 and b = ?a2
      and v = exampleVersions and conn = ?c1 and tok = ?a2 and c = ?cb and ms = ?ms]
  note miss = ensureActiveStub_constructs_iff [where a = ?a1 and b = ?b
      and v = exampleVersions and conn = ?c1 and tok = ?b and c = ?cb and ms = ?ms]
  have same: "sameToken ?a1 ?a2"
    using hit [THEN conjunct1] by (simp add: oauth_def)
  have differ: "\<not> sameToken ?a1 ?b"
    using miss [THEN conjunct1] by (simp add: oauth_def)
  have cached: "cachedStub ?c1 = Some \<lparr>stub = exampleStub 0 ?a1, token = ?a1\<rparr>"
    by simp
  have 1: "ensureActiveStub exampleVersions ?c1 ?a2 = (Inr (exampleStub 0 ?a1), ?c1)"
    using hit [THEN conjunct2, THEN conjunct2, THEN conjunct2, THEN conjunct2, rule_format,
        of "\<lparr>stub = exampleStub 0 ?a1, token = ?a1\<rparr>"] cached same
    by simp
  have headers: "createHeaders exampleVersions (databaseInfo ?c1) ?b = Inr ?cb"
    by (simp add: createHeaders_def assert_def oauth_def exampleConnection_def
          GrpcConnection_new_def)
  have built: "firestore ?c1 (host (databaseInfo ?c1)) ?cb = Inr ?ms"
    by (simp add: exampleConnection_def GrpcConnection_new_def exampleProtos_def)
  have missing: "cachedStub ?c1 = None \<or>
      (\<exists>cached. cachedStub ?c1 = Some cached \<and> \<not> sameToken (token cached) ?b)"
    using differ by simp
  have 2: "ensureActiveStub exampleVersions ?c1 ?b =
      (Inr (exampleStub 1 ?b),
       exampleConnection\<lparr>createHeadersCalls := 2,
         cachedStub := Some \<lparr>stub = exampleStub 1 ?b, token = ?b\<rparr>,
         stubsConstructed := 2\<rparr>)"
    using miss [THEN conjunct2, THEN conjunct2, THEN conjunct1, rule_format,
        OF conjI [OF missing conjI [OF headers built]]]
    by (simp add: exampleStub_def exampleConnection_def GrpcConnection_new_def
          exampleDatabase_def)
  from 1 2 same differ show ?thesis by (intro conjI)
qed

text \<open>
  C3 as it was stated fails where the construction throws: with an empty cache, a token
  that is not an OAuth token fails the assertion of \<^verbatim>\<open>createHeaders\<close>, and a constructor
  that throws ends the call; in both cases there is no cached stub and yet no stub is
  constructed.
\<close>

theorem ensureActiveStub_constructs_iff_counterexample:
  "cachedStub exampleConnection = None \<and>
   ensureActiveStub exampleVersions exampleConnection
      (Some \<lparr>type = ''FirstParty'', authHeaders = []\<rparr>) =
     (Inl (AssertionFailed TokenMustBeOAuth),
      exampleConnection\<lparr>createHeadersCalls := 1\<rparr>) \<and>
   stubsConstructed (exampleConnection\<lparr>createHeadersCalls := 1\<rparr>) =
     stubsConstructed exampleConnection \<and>
   cachedStub (exampleConnection\<lparr>createHeadersCalls := 1\<rparr>) = None \<and>
   cachedStub (GrpcConnection_new exampleFailingProtos exampleDatabase) = None \<and>
   ensureActiveStub exampleVersions (GrpcConnection_new exampleFailingProtos exampleDatabase)
      None =
     (Inl (TransportThrew ''channel''),
      (GrpcConnection_new exampleFailingProtos exampleDatabase)\<lparr>createHeadersCalls := 1\<rparr>) \<and>
   stubsConstructed
     ((GrpcConnection_new exampleFailingProtos exampleDatabase)\<lparr>createHeadersCalls := 1\<rparr>) =
     stubsConstructed (GrpcConnection_new exampleFailingProtos exampleDatabase)"
  by (simp add: ensureActiveStub_def createStub_def createHeaders_def assert_def
        exampleConnection_def GrpcConnection_new_def exampleFailingProtos_def)

text \<open>
  Claim C8. Take a call of \<^verbatim>\<open>ensureActiveStub(token)\<close> that has to build a stub (no stub is
  cached, or the cached token is not equivalent to \<open>token\<close>). If \<^verbatim>\<open>createHeaders\<close> throws,
  the call throws the same exception; if the headers are made and the constructor
  throws, the call throws the exception of the constructor. In both cases nothing of
  the connection changes but the count of \<^verbatim>\<open>createHeaders\<close> calls: the cache holds what
  it held before and no stub was constructed. Conversely a call that throws is one of
  these two.
\<close>

theorem ensureActiveStub_failure_keeps_cache:
  "((cachedStub conn = None \<or>
     (\<exists>cached. cachedStub conn = Some cached \<and> \<not> sameToken (token cached) tok)) \<and>
    createHeaders v (databaseInfo conn) tok = Inl e \<longrightarrow>
      ensureActiveStub v conn tok =
        (Inl e, conn\<lparr>createHeadersCalls := Suc (createHeadersCalls conn)\<rparr>)) \<and>
   ((cachedStub conn = None \<or>
     (\<exists>cached. cachedStub conn = Some cached \<and> \<not> sameToken (token cached) tok)) \<and>
    createHeaders v (databaseInfo conn) tok = Inr c \<and>
    firestore conn (host (databaseInfo conn)) c = Inl e \<longrightarrow>
      ensureActiveStub v conn tok =
        (Inl e, conn\<lparr>createHeadersCalls := Suc (createHeadersCalls conn)\<rparr>)) \<and>
   cachedStub (conn\<lparr>createHeadersCalls := Suc (createHeadersCalls conn)\<rparr>) = cachedStub conn \<and>
   stubsConstructed (conn\<lparr>createHeadersCalls := Suc (createHeadersCalls conn)\<rparr>) =
     stubsConstructed conn \<and>
   (ensureActiveStub v conn tok = (Inl e, conn') \<longrightarrow>
      conn' = conn\<lparr>createHeadersCalls := Suc (createHeadersCalls conn)\<rparr> \<and>
      cachedStub conn' = cachedStub conn \<and>
      stubsConstructed conn' = stubsConstructed conn \<and>
      (cachedStub conn = None \<or>
       (\<exists>cached. cachedStub conn = Some cached \<and> \<not> sameToken (token cached) tok)) \<and>
      (createHeaders v (databaseInfo conn) tok = Inl e \<or>
       (\<exists>credentials. createHeaders v (databaseInfo conn) tok = Inr credentials \<and>
          firestore conn (host (databaseInfo conn)) credentials = Inl e)))"
proof -
  let ?miss = "cachedStub conn = None \<or>
    (\<exists>cached. cachedStub conn = Some cached \<and> \<not> sameToken (token cached) tok)"
  have byHeaders: "ensureActiveStub v conn tok =
      (Inl e, conn\<lparr>createHeadersCalls := Suc (createHeadersCalls conn)\<rparr>)"
    if "?miss" "createHeaders v (databaseInfo conn) tok = Inl e"
    using that by (simp only: ensureActiveStub_miss createStub_headers_throw)
  have byConstructor: "ensureActiveStub v conn tok =
      (Inl e, conn\<lparr>createHeadersCalls := Suc (createHeadersCalls conn)\<rparr>)"
    if "?miss" "createHeaders v (databaseInfo conn) tok = Inr c"
       "firestore conn (host (databaseInfo conn)) c = Inl e"
    using that by (simp only: ensureActiveStub_miss createStub_constructor_throws)
  have thrown: "conn' = conn\<lparr>createHeadersCalls := Suc (createHeadersCalls conn)\<rparr> \<and>
      cachedStub conn' = cachedStub conn \<and>
      stubsConstructed conn' = stubsConstructed conn \<and> ?miss \<and>
      (createHeaders v (databaseInfo conn) tok = Inl e \<or>
       (\<exists>credentials. createHeaders v (databaseInfo conn) tok = Inr credentials \<and>
          firestore conn (host (databaseInfo conn)) credentials = Inl e))"
    if "ensureActiveStub v conn tok = (Inl e, conn')"
    using that
    by (auto simp: ensureActiveStub_def createStub_def Let_def
          split: option.splits sum.splits if_splits)
  show ?thesis
  proof (intro conjI impI)
    assume "?miss \<and> createHeaders v (databaseInfo conn) tok = Inl e"
    then show "ensureActiveStub v conn tok =
        (Inl e, conn\<lparr>createHeadersCalls := Suc (createHeadersCalls conn)\<rparr>)"
      by (elim conjE) (rule byHeaders)
  next
    assume "?miss \<and> createHeaders v (databaseInfo conn) tok = Inr c \<and>
      firestore conn (host (databaseInfo conn)) c = Inl e"
    then show "ensureActiveStub v conn tok =
        (Inl e, conn\<lparr>createHeadersCalls := Suc (createHeadersCalls conn)\<rparr>)"
      by (elim conjE) (rule byConstructor)
  qed (use thrown in simp_all)
qed

text \<open>
  An instance of C8: a stub is cached for the absent token; a call with a token that is
  not an OAuth token throws the assertion failure, a call on a connection whose
  constructor throws throws that exception, and both leave that stub cached.
\<close>

theorem ensureActiveStub_failure_keeps_cache_witness:
  "ensureActiveStub exampleVersions
     (exampleConnection\<lparr>createHeadersCalls := 1,
        cachedStub := Some \<lparr>stub = exampleStub 0 None, token = None\<rparr>,
        stubsConstructed := 1\<rparr>)
     (Some \<lparr>type = ''FirstParty'', authHeaders = [(''Authorization'', ''k'')]\<rparr>) =
     (Inl (AssertionFailed TokenMustBeOAuth),
      exampleConnection\<lparr>createHeadersCalls := 2,
        cachedStub := Some \<lparr>stub = exampleStub 0 None, token = None\<rparr>,
        stubsConstructed := 1\<rparr>) \<and>
   ensureActiveStub exampleVersions
     ((GrpcConnection_new exampleFailingProtos exampleDatabase)\<lparr>createHeadersCalls := 1,
        cachedStub := Some \<lparr>stub = exampleStub 0 None, token = None\<rparr>,
        stubsConstructed := 1\<rparr>)
     (Some (oauth [(''Authorization'', ''Bearer a'')])) =
     (Inl (TransportThrew ''channel''),
      (GrpcConnection_new exampleFailingProtos exampleDatabase)\<lparr>createHeadersCalls := 2,
        cachedStub := Some \<lparr>stub = exampleStub 0 None, token = None\<rparr>,
        stubsConstructed := 1\<rparr>)"
proof -
  let ?fp = "Some \<lparr>type = ''FirstParty'', authHeaders = [(''Authorization'', ''k'')]\<rparr>"
  let ?a = "Some (oauth [(''Authorization'', ''Bearer a'')])"
  let ?c1 = "exampleConnection\<lparr>createHeadersCalls := 1,
        cachedStub := Some \<lparr>stub = exampleStub 0 None, token = None\<rparr>,
        stubsConstructed := 1\<rparr>"
  let ?c2 = "(GrpcConnection_new exampleFailingProtos exampleDatabase)\<lparr>createHeadersCalls := 1,
        cachedStub := Some \<lparr>stub = exampleStub 0 None, token = None\<rparr>,
        stubsConstructed := 1\<rparr>"
  let ?ca = "\<lparr>channelCredentials = Ssl,
        callCredentials = metadataGenerator exampleVersions exampleDatabase ?a\<rparr>"
  have miss1: "cachedStub ?c1 = None \<or>
      (\<exists>cached. cachedStub ?c1 = Some cached \<and> \<not> sameToken (token cached) ?fp)"
    by (simp add: sameToken_def authorizationValue_def)
  have h1: "createHeaders exampleVersions (databaseInfo ?c1) ?fp =
      Inl (AssertionFailed TokenMustBeOAuth)"
    by (simp add: createHeaders_def assert_def)
  have 1: "ensureActiveStub exampleVersions ?c1 ?fp =
      (Inl (AssertionFailed TokenMustBeOAuth),
       exampleConnection\<lparr>createHeadersCalls := 2,
         cachedStub := Some \<lparr>stub = exampleStub 0 None, token = None\<rparr>,
         stubsConstructed := 1\<rparr>)"
    using ensureActiveStub_failure_keeps_cache [where v = exampleVersions and conn = ?c1
        and tok = ?fp and e = "AssertionFailed TokenMustBeOAuth" and c = ?ca and conn' = ?c1,
        THEN conjunct1, rule_format, OF conjI [OF miss1 h1]]
    by (simp add: exampleConnection_def GrpcConnection_new_def)
  have miss2: "cachedStub ?c2 = None \<or>
      (\<exists>cached. cachedStub ?c2 = Some cached \<and> \<not> sameToken (token cached) ?a)"
    by (simp add: sameToken_def authorizationValue_def oauth_def)
  have h2: "createHeaders exampleVersions (databaseInfo ?c2) ?a = Inr ?ca"
    by (simp add: createHeaders_def assert_def oauth_def GrpcConnection_new_def)
  have f2: "firestore ?c2 (host (databaseInfo ?c2)) ?ca = Inl (TransportThrew ''channel'')"
    by (simp add: GrpcConnection_new_def exampleFailingProtos_def)
  have 2: "ensureActiveStub exampleVersions ?c2 ?a =
      (Inl (TransportThrew ''channel''),
       (GrpcConnection_new exampleFailingProtos exampleDatabase)\<lparr>createHeadersCalls := 2,
         cachedStub := Some \<lparr>stub = exampleStub 0 None, token = None\<rparr>,
         stubsConstructed := 1\<rparr>)"
    using ensureActiveStub_failure_keeps_cache [where v = exampleVersions and conn = ?c2
        and tok = ?a and e = "TransportThrew ''channel''" and c = ?ca and conn' = ?c2,
        THEN conjunct2, THEN conjunct1, rule_format, OF conjI [OF miss2 conjI [OF h2 f2]]]
    by (simp add: GrpcConnection_new_def)
  from 1 2 show ?thesis by (intro conjI)
qed






subsection \<open>Unary and server-streaming calls\<close>

lemma settled_promise_stays:
  "p \<noteq> Pending \<Longrightarrow> nodeCallback error val p = p"
  by (cases p) (simp_all add: nodeCallback_def resolve_def reject_def split: option.splits)

lemma unaryCallbacks_settled:
  "unaryPromise call \<noteq> Pending \<Longrightarrow>
     unaryPromise (unaryCallbacks m cbs call) = unaryPromise call"
proof (induction cbs arbitrary: call)
  case Nil
  show ?case by simp
next
  case (Cons cb cbs)
  obtain grpcError val where cb: "cb = (grpcError, val)" by (cases cb)
  have "unaryPromise (invokeRPC_callback m grpcError val call) = unaryPromise call"
    using Cons.prems
    by (simp add: invokeRPC_callback_def settled_promise_stays split: option.splits)
  then show ?case using Cons.prems Cons.IH [of "invokeRPC_callback m grpcError val call"]
    by (simp add: cb)
qed

lemma invokeRPC_initial:
  "fst (invokeRPC v conn rpcName request tok) = Inr call \<Longrightarrow> unaryPromise call = Pending"
  by (auto simp: invokeRPC_def split: prod.splits sum.splits)

lemma example_invokeRPC:
  "fst (invokeRPC exampleVersions exampleConnection ''Commit'' request None) =
     Inr \<lparr>unaryRpc = \<lparr>boundStub = exampleStub 0 None, rpcMethod = ''commit''\<rparr>,
          unaryRequest = request, unaryPromise = Pending\<rparr>"
  by (simp add: invokeRPC_def getRpcCallable_def example_ensureActiveStub assert_def
        exampleStub_def toLowerCase_examples Let_def)

text \<open>
  Claim C5. The promise \<^verbatim>\<open>invokeRPC\<close> returns is pending. The first time the transport
  invokes the callback settles it, through exactly one of \<^verbatim>\<open>reject\<close> and \<^verbatim>\<open>resolve\<close>: given
  an error with status code \<open>X\<close> it is rejected with the \<^verbatim>\<open>FirestoreError\<close> made of
  \<^verbatim>\<open>mapCodeFromRpcCode(X)\<close> and the message of the error, given no error it is resolved
  with the value. Whatever the transport does afterwards, the promise stays as it is.
\<close>

theorem invokeRPC_settles_once:
  assumes "fst (invokeRPC v conn rpcName request tok) = Inr call"
  shows "unaryPromise call = Pending \<and>
         unaryPromise (unaryCallbacks m ((Some err, val) # rest) call) =
           Rejected (FirestoreError (m (code err)) (message err)) \<and>
         unaryPromise (unaryCallbacks m ((None, val) # rest) call) = Resolved val"
proof -
  have p: "unaryPromise call = Pending" using assms by (rule invokeRPC_initial)
  have "unaryPromise (invokeRPC_callback m (Some err) val call) =
      Rejected (FirestoreError (m (code err)) (message err))"
    by (simp add: invokeRPC_callback_def nodeCallback_def reject_def p)
  then have r: "unaryPromise (unaryCallbacks m ((Some err, val) # rest) call) =
      Rejected (FirestoreError (m (code err)) (message err))"
    by (simp add: unaryCallbacks_settled)
  have "unaryPromise (invokeRPC_callback m None val call) = Resolved val"
    by (simp add: invokeRPC_callback_def nodeCallback_def resolve_def p)
  then have "unaryPromise (unaryCallbacks m ((None, val) # rest) call) = Resolved val"
    by (simp add: unaryCallbacks_settled)
  with p r show ?thesis by simp
qed

text \<open>
  An instance of C5: an error with code 14 followed by a stray success, and a success
  followed by a stray error.
\<close>

theorem invokeRPC_settles_once_witness:
  "unaryPromise
     (unaryCallbacks exampleMapCode
        [(Some \<lparr>code = 14, message = ''down''\<rparr>, None), (None, Some ''late'')]
        \<lparr>unaryRpc = \<lparr>boundStub = exampleStub 0 None, rpcMethod = ''commit''\<rparr>,
          unaryRequest = ''request'', unaryPromise = Pending\<rparr>) =
     Rejected (FirestoreError ''unavailable'' ''down'') \<and>
   unaryPromise
     (unaryCallbacks exampleMapCode
        [(None, Some ''response''), (Some \<lparr>code = 14, message = ''down''\<rparr>, None)]
        \<lparr>unaryRpc = \<lparr>boundStub = exampleStub 0 None, rpcMethod = ''commit''\<rparr>,
          unaryRequest = ''request'', unaryPromise = Pending\<rparr>) =
     Resolved (Some ''response'')"
  using
    invokeRPC_settles_once [OF example_invokeRPC [of "''request''"], where m = exampleMapCode and err = "\<lparr>code = 14, message = ''down''\<rparr>"
      and val = None and rest = "[(None, Some ''late'')]"]
    invokeRPC_settles_once [OF example_invokeRPC [of "''request''"], where m = exampleMapCode and err = "\<lparr>code = 14, message = ''down''\<rparr>"
      and val = "Some ''response''"
      and rest = "[(Some \<lparr>code = 14, message = ''down''\<rparr>, None)]"]
  by (simp add: exampleMapCode_def invokeRPC_callback_def nodeCallback_def resolve_def
        reject_def)

lemma streamingEvents_append:
  "streamingEvents m (xs @ ys) call = streamingEvents m ys (streamingEvents m xs call)"
  by (induction m xs call rule: streamingEvents.induct) simp_all

lemma streamingEvents_results:
  "results (streamingEvents m evs call) = results call"
  by (induction m evs call rule: streamingEvents.induct)
     (simp_all add: streaming_on_data_def streaming_on_end_def streaming_on_error_def)

lemma streamingEvents_arrays:
  "arrays (streamingEvents m evs call) (results call) =
     arrays call (results call) @ responsesOf evs"
  by (induction m evs call rule: streamingEvents.induct)
     (simp_all add: streaming_on_data_def streaming_on_end_def streaming_on_error_def)

lemma streamingEvents_settled:
  "responseDeferred call \<noteq> Pending \<Longrightarrow>
     responseDeferred (streamingEvents m evs call) = responseDeferred call"
proof (induction m evs call rule: streamingEvents.induct)
  case (1 m call)
  show ?case by simp
next
  case (2 m response rest call)
  then show ?case by (simp add: streaming_on_data_def)
next
  case (3 m rest call)
  then show ?case
    by (cases "responseDeferred call") (simp_all add: streaming_on_end_def resolve_def)
next
  case (4 m grpcError rest call)
  then show ?case
    by (cases "responseDeferred call") (simp_all add: streaming_on_error_def reject_def)
qed

lemma streamingEvents_data:
  "responseDeferred (streamingEvents m (map DataEvent rs) call) = responseDeferred call"
  by (induction rs arbitrary: call) (simp_all add: streaming_on_data_def)

lemma responsesOf_data: "responsesOf (map DataEvent rs) = rs"
  by (induction rs) simp_all

lemma invokeStreamingRPC_initial:
  "fst (invokeStreamingRPC v conn rpcName request tok) = Inr call \<Longrightarrow>
     responseDeferred call = Pending \<and> arrays call (results call) = []"
  by (auto simp: invokeStreamingRPC_def split: prod.splits sum.splits)

lemma example_invokeStreamingRPC:
  "fst (invokeStreamingRPC exampleVersions exampleConnection ''BatchGetDocuments'' request None) =
     Inr \<lparr>streamingRpc = \<lparr>boundStub = exampleStub 0 None, rpcMethod = ''batchGetDocuments''\<rparr>,
          streamingRequest = request, arrays = (\<lambda>r. []), results = 0,
          responseDeferred = Pending\<rparr>"
  by (simp add: invokeStreamingRPC_def getRpcCallable_def example_ensureActiveStub assert_def
        exampleStub_def toLowerCase_examples Let_def)

text \<open>
  Claim C4, amended. While the stream has only delivered responses the promise is
  pending. If it delivers \<open>rs\<close> and then its end, the promise is resolved with the array
  of exactly \<open>rs\<close>, in order (the empty array when \<open>rs\<close> is empty). If it delivers \<open>rs\<close>
  and then an error, the promise is rejected with the \<^verbatim>\<open>FirestoreError\<close> made of
  \<^verbatim>\<open>mapCodeFromRpcCode\<close> of the status code and the message, and no response is delivered.
  The first of the two signals decides between resolved and rejected, whatever follows.
  After an error nothing that follows can be seen. After an end the promise holds the
  array that the data listener still appends to: the responses a stream delivers after
  its end appear in the resolved array.
\<close>

theorem invokeStreamingRPC_outcome:
  assumes "fst (invokeStreamingRPC v conn rpcName request tok) = Inr call"
  shows "settled (streamingEvents m (map DataEvent rs) call) = None \<and>
         settled (streamingEvents m (map DataEvent rs @ [EndEvent]) call) = Some (Inr rs) \<and>
         settled (streamingEvents m (map DataEvent rs @ EndEvent # rest) call) =
           Some (Inr (rs @ responsesOf rest)) \<and>
         settled (streamingEvents m (map DataEvent rs @ ErrorEvent err # rest) call) =
           Some (Inl (FirestoreError (m (code err)) (message err)))"
proof -
  let ?c = "streamingEvents m (map DataEvent rs) call"
  have init: "responseDeferred call = Pending" "arrays call (results call) = []"
    using invokeStreamingRPC_initial [OF assms] by simp_all
  have pend: "responseDeferred ?c = Pending"
    by (simp add: streamingEvents_data init)
  have res: "results ?c = results call"
    by (rule streamingEvents_results)
  have arr: "arrays ?c (results call) = rs"
    by (simp add: streamingEvents_arrays init responsesOf_data)
  have 1: "settled ?c = None"
    by (simp add: settled_def pend)
  have ended: "settled (streamingEvents m (map DataEvent rs @ EndEvent # evs) call) =
      Some (Inr (rs @ responsesOf evs))" for evs
  proof -
    let ?e = "streaming_on_end ?c"
    have d: "responseDeferred ?e = Resolved (results call)"
      by (simp add: streaming_on_end_def resolve_def pend res)
    have "responseDeferred (streamingEvents m evs ?e) = Resolved (results call)"
      by (simp add: streamingEvents_settled d)
    moreover have "arrays (streamingEvents m evs ?e) (results call) = rs @ responsesOf evs"
      using streamingEvents_arrays [of m evs ?e]
      by (simp add: streaming_on_end_def res arr)
    ultimately show ?thesis
      by (simp add: streamingEvents_append settled_def)
  qed
  have 4: "settled (streamingEvents m (map DataEvent rs @ ErrorEvent err # rest) call) =
      Some (Inl (FirestoreError (m (code err)) (message err)))"
  proof -
    let ?e = "streaming_on_error m err ?c"
    have d: "responseDeferred ?e = Rejected (FirestoreError (m (code err)) (message err))"
      by (simp add: streaming_on_error_def reject_def pend)
    have "responseDeferred (streamingEvents m rest ?e) =
        Rejected (FirestoreError (m (code err)) (message err))"
      by (simp add: streamingEvents_settled d)
    then show ?thesis
      by (simp add: streamingEvents_append settled_def)
  qed
  show ?thesis using 1 ended [of "[]"] ended [of rest] 4 by simp
qed

text \<open>
  An instance of C4: two responses and the end; two responses, an error and then the end.
\<close>

theorem invokeStreamingRPC_outcome_witness:
  "settled
     (streamingEvents exampleMapCode [DataEvent ''r1'', DataEvent ''r2'', EndEvent]
        \<lparr>streamingRpc = \<lparr>boundStub = exampleStub 0 None, rpcMethod = ''batchGetDocuments''\<rparr>,
          streamingRequest = ''request'', arrays = (\<lambda>r. []), results = 0,
          responseDeferred = Pending\<rparr>) = Some (Inr [''r1'', ''r2'']) \<and>
   settled
     (streamingEvents exampleMapCode
        [DataEvent ''r1'', DataEvent ''r2'', ErrorEvent \<lparr>code = 14, message = ''down''\<rparr>, EndEvent]
        \<lparr>streamingRpc = \<lparr>boundStub = exampleStub 0 None, rpcMethod = ''batchGetDocuments''\<rparr>,
          streamingRequest = ''request'', arrays = (\<lambda>r. []), results = 0,
          responseDeferred = Pending\<rparr>) = Some (Inl (FirestoreError ''unavailable'' ''down''))"
  using
    invokeStreamingRPC_outcome [OF example_invokeStreamingRPC [of "''request''"], where m = exampleMapCode and rs = "[''r1'', ''r2'']" and rest = "[EndEvent]"
      and err = "\<lparr>code = 14, message = ''down''\<rparr>"]
  by (simp add: exampleMapCode_def settled_def streaming_on_data_def streaming_on_end_def
        streaming_on_error_def resolve_def reject_def)

text \<open>
  C4 as it was stated fails in its last part, that no further accumulation can be seen
  after the first terminal signal: the array the promise was resolved with holds one
  response after the end, and two once one more response has arrived.
\<close>

theorem invokeStreamingRPC_outcome_counterexample:
  "fst (invokeStreamingRPC exampleVersions exampleConnection ''BatchGetDocuments'' ''request'' None) =
     Inr \<lparr>streamingRpc = \<lparr>boundStub = exampleStub 0 None, rpcMethod = ''batchGetDocuments''\<rparr>,
          streamingRequest = ''request'', arrays = (\<lambda>r. []), results = 0,
          responseDeferred = Pending\<rparr> \<and>
   settled
     (streamingEvents exampleMapCode [DataEvent ''r1'', EndEvent]
        \<lparr>streamingRpc = \<lparr>boundStub = exampleStub 0 None, rpcMethod = ''batchGetDocuments''\<rparr>,
          streamingRequest = ''request'', arrays = (\<lambda>r. []), results = 0,
          responseDeferred = Pending\<rparr>) = Some (Inr [''r1'']) \<and>
   settled
     (streamingEvents exampleMapCode [DataEvent ''r1'', EndEvent, DataEvent ''r2'']
        \<lparr>streamingRpc = \<lparr>boundStub = exampleStub 0 None, rpcMethod = ''batchGetDocuments''\<rparr>,
          streamingRequest = ''request'', arrays = (\<lambda>r. []), results = 0,
          responseDeferred = Pending\<rparr>) = Some (Inr [''r1'', ''r2''])"
  by (simp add: example_invokeStreamingRPC settled_def streaming_on_data_def
        streaming_on_end_def resolve_def)

subsection \<open>Duplex streams\<close>

lemma openStream_initial:
  "fst (openStream v conn rpcName tok) = Inr s \<Longrightarrow>
     s = \<lparr>closed = False, openTimer = True, delivered = [], grpcCalls = []\<rparr>"
  by (auto simp: openStream_def split: prod.splits sum.splits)

lemma example_openStream:
  "fst (openStream exampleVersions exampleConnection ''Listen'' None) =
     Inr \<lparr>closed = False, openTimer = True, delivered = [], grpcCalls = []\<rparr>"
  by (simp add: openStream_def example_getRpcCallable)

lemma close_closed: "closed s \<Longrightarrow> close err s = s"
  by (simp add: close_def)

lemma closed_close: "closed (close err s)"
  by (simp add: close_def callOnClose_def Let_def)

lemma dispatch_closed:
  "closed s \<Longrightarrow> closed (snd (dispatch m w ev s))"
  by (cases ev)
     (auto simp: sendFn_def closeFn_def on_data_def on_end_def on_finish_def on_error_def
        on_status_def assert_def
        on_timeout_def callOnOpen_def close_def Let_def split: option.splits StatusObject.splits)

lemma dispatch_closed_nonopen:
  "closed s \<Longrightarrow>
     filter (\<lambda>d. \<not> isOpen d) (delivered (snd (dispatch m w ev s))) =
     filter (\<lambda>d. \<not> isOpen d) (delivered s)"
  by (cases ev)
     (auto simp: sendFn_def closeFn_def on_data_def on_end_def on_finish_def on_error_def
        on_status_def assert_def
        on_timeout_def callOnOpen_def close_def Let_def split: option.splits StatusObject.splits)

lemma run_closed_nonopen:
  "closed s \<Longrightarrow>
     filter (\<lambda>d. \<not> isOpen d) (delivered (run m w evs s)) =
     filter (\<lambda>d. \<not> isOpen d) (delivered s)"
proof (induction evs arbitrary: s)
  case Nil
  show ?case by simp
next
  case (Cons ev evs)
  have "closed (snd (dispatch m w ev s))" using Cons.prems by (rule dispatch_closed)
  then show ?case
    using Cons.IH [of "snd (dispatch m w ev s)"] dispatch_closed_nonopen [OF Cons.prems, of m w ev]
    by simp
qed

lemma run_open_nonopen:
  "\<not> closed s \<Longrightarrow>
     filter (\<lambda>d. \<not> isOpen d) (delivered (run m w evs s)) =
     filter (\<lambda>d. \<not> isOpen d) (delivered s) @ map OnMessage (messagesBeforeClose evs) @
       closeDelivery (firstCloseTrigger m evs)"
proof (induction evs arbitrary: s)
  case Nil
  show ?case by (simp add: closeDelivery_def)
next
  case (Cons ev evs)
  show ?case
  proof (cases ev)
    case (Send msg)
    then show ?thesis using Cons.prems Cons.IH [of "snd (sendFn w msg s)"]
      by (simp add: sendFn_def Let_def split: option.splits)
  next
    case Close
    then show ?thesis using Cons.prems run_closed_nonopen [of "close None s" m w evs]
      by (simp add: closeFn_def closed_close closeDelivery_def)
         (simp add: close_def callOnClose_def Let_def)
  next
    case (GrpcData msg)
    then show ?thesis using Cons.prems Cons.IH [of "on_data msg s"]
      by (simp add: on_data_def callOnMessage_def)
  next
    case GrpcEnd
    then show ?thesis using Cons.prems run_closed_nonopen [of "close None s" m w evs]
      by (simp add: on_end_def closed_close closeDelivery_def)
         (simp add: close_def callOnClose_def Let_def)
  next
    case GrpcFinish
    then show ?thesis using Cons.prems Cons.IH [of s]
      by (simp add: on_finish_def)
  next
    case (GrpcError e)
    then show ?thesis using Cons.prems
        run_closed_nonopen [of "close (Some (FirestoreError (m (code e)) (message e))) s" m w evs]
      by (simp add: on_error_def closed_close closeDelivery_def)
         (simp add: close_def callOnClose_def Let_def)
  next
    case (GrpcStatus st)
    then show ?thesis using Cons.prems Cons.IH [of s]
      by (simp add: on_status_def split: StatusObject.splits)
  next
    case Timeout
    then show ?thesis using Cons.prems Cons.IH [of "on_timeout (s\<lparr>openTimer := False\<rparr>)"] Cons.IH [of s]
      by (simp add: on_timeout_def callOnOpen_def)
  qed
qed

lemma dispatch_isOpen:
  "filter isOpen (delivered (snd (dispatch m w ev s))) =
     filter isOpen (delivered s) @ (if ev = Timeout \<and> openTimer s then [OnOpen] else [])"
  by (cases ev)
     (auto simp: sendFn_def closeFn_def on_data_def on_end_def on_finish_def on_error_def
        on_status_def assert_def callOnMessage_def callOnClose_def
        on_timeout_def callOnOpen_def close_def Let_def split: option.splits StatusObject.splits)

lemma dispatch_openTimer:
  "openTimer (snd (dispatch m w ev s)) = (openTimer s \<and> ev \<noteq> Timeout)"
  by (cases ev)
     (auto simp: sendFn_def closeFn_def on_data_def on_end_def on_finish_def on_error_def
        on_status_def assert_def callOnMessage_def callOnClose_def
        on_timeout_def callOnOpen_def close_def Let_def split: option.splits StatusObject.splits)

lemma run_isOpen:
  "filter isOpen (delivered (run m w evs s)) =
     filter isOpen (delivered s) @ (if Timeout \<in> set evs \<and> openTimer s then [OnOpen] else [])"
proof (induction evs arbitrary: s)
  case Nil
  show ?case by simp
next
  case (Cons ev evs)
  show ?case
    by (simp add: Cons.IH dispatch_isOpen dispatch_openTimer)
qed

lemma run_closed:
  "closed (run m w evs s) = (closed s \<or> firstCloseTrigger m evs \<noteq> None)"
proof (induction evs arbitrary: s)
  case Nil
  show ?case by simp
next
  case (Cons ev evs)
  show ?case
    by (cases ev)
       (auto simp: Cons.IH sendFn_def closeFn_def on_data_def on_end_def on_finish_def
          on_error_def on_status_def assert_def callOnMessage_def callOnClose_def
          on_timeout_def callOnOpen_def close_def Let_def
          split: option.splits StatusObject.splits)
qed

lemma isClose_not_isOpen: "(\<not> isOpen d \<and> isClose d) = isClose d"
  by (cases d) simp_all

lemma filter_isClose_messages: "filter isClose (map OnMessage ms) = []"
  by (induction ms) simp_all

lemma filter_isClose_closeDelivery: "filter isClose (closeDelivery t) = closeDelivery t"
  by (simp add: closeDelivery_def split: option.splits)

lemma dispatch_closed_timerless:
  "closed s \<Longrightarrow> \<not> openTimer s \<Longrightarrow> snd (dispatch m w ev s) = s"
  by (cases ev)
     (auto simp: sendFn_def closeFn_def on_data_def on_end_def on_finish_def on_error_def
        on_status_def assert_def close_def Let_def split: StatusObject.splits)

lemma run_closed_timerless:
  "closed s \<Longrightarrow> \<not> openTimer s \<Longrightarrow> run m w evs s = s"
  by (induction evs) (simp_all add: dispatch_closed_timerless)

lemma run_timerless:
  "\<not> closed s \<Longrightarrow> \<not> openTimer s \<Longrightarrow>
     delivered (run m w evs s) =
     delivered s @ map OnMessage (messagesBeforeClose evs) @
       closeDelivery (firstCloseTrigger m evs)"
proof (induction evs arbitrary: s)
  case Nil
  show ?case by (simp add: closeDelivery_def)
next
  case (Cons ev evs)
  have closing: "delivered (run m w evs (close err s)) = delivered s @ [OnClose err]" for err
  proof -
    have "closed (close err s)" by (rule closed_close)
    moreover have "\<not> openTimer (close err s)"
      using Cons.prems by (simp add: close_def callOnClose_def Let_def)
    ultimately have "run m w evs (close err s) = close err s"
      by (rule run_closed_timerless)
    then show ?thesis
      using Cons.prems by (simp add: close_def callOnClose_def Let_def)
  qed
  show ?case
  proof (cases ev)
    case (Send msg)
    then show ?thesis using Cons.prems Cons.IH [of "snd (sendFn w msg s)"]
      by (simp add: sendFn_def Let_def split: option.splits)
  next
    case Close
    then show ?thesis by (simp add: closeFn_def closing closeDelivery_def)
  next
    case (GrpcData msg)
    then show ?thesis using Cons.prems Cons.IH [of "on_data msg s"]
      by (simp add: on_data_def callOnMessage_def)
  next
    case GrpcEnd
    then show ?thesis by (simp add: on_end_def closing closeDelivery_def)
  next
    case GrpcFinish
    then show ?thesis using Cons.prems Cons.IH [of s]
      by (simp add: on_finish_def)
  next
    case (GrpcError e)
    then show ?thesis by (simp add: on_error_def closing closeDelivery_def)
  next
    case (GrpcStatus st)
    then show ?thesis using Cons.prems Cons.IH [of s]
      by (simp add: on_status_def split: StatusObject.splits)
  next
    case Timeout
    then show ?thesis using Cons.prems Cons.IH [of s]
      by simp
  qed
qed

lemma afterOpen_messages_close:
  "afterOpen (map OnMessage ms @ closeDelivery t)"
  by (induction ms) (auto simp: closeDelivery_def split: option.splits)

text \<open>
  Claim C1. For a stream returned by \<^verbatim>\<open>openStream\<close> and any list of events, in any order
  (calls of \<^verbatim>\<open>send\<close> and \<^verbatim>\<open>close\<close>, the five events of the transport, the timer), the
  deliveries of \<^verbatim>\<open>callOnClose\<close> are: none if the list has no close trigger, and otherwise
  exactly one, with the argument of the first trigger (no error for \<^verbatim>\<open>close()\<close> and for
  the end of the stream, the translated error for an error event). The stream is closed
  exactly when a trigger has fired. On a closed stream each of the three triggers leaves
  every variable, every delivery and every call on the transport as it was.
\<close>

theorem close_notified_once:
  fixes s :: "('req, 'resp, 'k) DuplexStream"
  assumes "fst (openStream v conn rpcName tok) = Inr s"
  shows "filter isClose (delivered (run m w evs s)) = closeDelivery (firstCloseTrigger m evs) \<and>
         closed (run m w evs s) = (firstCloseTrigger m evs \<noteq> None) \<and>
         (\<forall>s' :: ('req, 'resp, 'k) DuplexStream. closed s' \<longrightarrow>
            closeFn s' = s' \<and> on_end s' = s' \<and> on_error m grpcError s' = s')"
proof -
  have s: "s = \<lparr>closed = False, openTimer = True, delivered = [], grpcCalls = []\<rparr>"
    using assms by (rule openStream_initial)
  have "filter (\<lambda>d. \<not> isOpen d) (delivered (run m w evs s)) =
      map OnMessage (messagesBeforeClose evs) @ closeDelivery (firstCloseTrigger m evs)"
    by (simp add: run_open_nonopen s)
  then have "filter isClose (filter (\<lambda>d. \<not> isOpen d) (delivered (run m w evs s))) =
      filter isClose (map OnMessage (messagesBeforeClose evs) @
        closeDelivery (firstCloseTrigger m evs))"
    by (rule arg_cong)
  then have once: "filter isClose (delivered (run m w evs s)) =
      closeDelivery (firstCloseTrigger m evs)"
    by (simp add: isClose_not_isOpen filter_isClose_messages
          filter_isClose_closeDelivery)
  have state: "closed (run m w evs s) = (firstCloseTrigger m evs \<noteq> None)"
    by (simp add: run_closed s)
  have later: "closeFn s' = s' \<and> on_end s' = s' \<and> on_error m grpcError s' = s'"
    if "closed s'" for s' :: "('req, 'resp, 'k) DuplexStream"
    using that by (simp add: closeFn_def on_end_def on_error_def close_closed)
  show ?thesis using once state later by blast
qed

text \<open>
  An instance of C1: an error first and three more triggers after it; \<^verbatim>\<open>close()\<close> twice
  around an end; an end and then \<^verbatim>\<open>close()\<close>.
\<close>

theorem close_notified_once_witness:
  "filter isClose
     (delivered (run exampleMapCode exampleWrite
        [Timeout, GrpcData ''R1'', GrpcError \<lparr>code = 14, message = ''down''\<rparr>, Close, GrpcEnd, Close]
        \<lparr>closed = False, openTimer = True, delivered = [], grpcCalls = []\<rparr>)) =
     [OnClose (Some (FirestoreError ''unavailable'' ''down''))] \<and>
   filter isClose
     (delivered (run exampleMapCode exampleWrite [Close, GrpcEnd, Close]
        \<lparr>closed = False, openTimer = True, delivered = ([] :: (string, string) Delivery list),
          grpcCalls = []\<rparr>)) =
     [OnClose None] \<and>
   filter isClose
     (delivered (run exampleMapCode exampleWrite [GrpcEnd, Close]
        \<lparr>closed = False, openTimer = True, delivered = ([] :: (string, string) Delivery list),
          grpcCalls = []\<rparr>)) =
     [OnClose None]"
  using
    close_notified_once [OF example_openStream, of exampleMapCode exampleWrite
      "[Timeout, GrpcData ''R1'', GrpcError \<lparr>code = 14, message = ''down''\<rparr>, Close, GrpcEnd, Close]"]
    close_notified_once [OF example_openStream, of exampleMapCode exampleWrite
      "[Close, GrpcEnd, Close] :: (string, string) StreamEvent list"]
    close_notified_once [OF example_openStream, of exampleMapCode exampleWrite
      "[GrpcEnd, Close] :: (string, string) StreamEvent list"]
  by (simp add: closeDelivery_def exampleMapCode_def closeFn_def close_def callOnClose_def
        on_end_def on_error_def on_data_def callOnMessage_def on_timeout_def callOnOpen_def
        Let_def)

lemma run_append:
  "run m w (xs @ ys) s = run m w ys (run m w xs s)"
  by (induction xs arbitrary: s) simp_all

lemma run_openTimer:
  "openTimer (run m w evs s) = (openTimer s \<and> Timeout \<notin> set evs)"
  by (induction evs arbitrary: s) (auto simp: dispatch_openTimer)

lemma run_closed_before_timer:
  "closed s \<Longrightarrow> Timeout \<notin> set evs \<Longrightarrow> run m w evs s = s"
proof (induction evs)
  case Nil
  show ?case by simp
next
  case (Cons ev evs)
  have "snd (dispatch m w ev s) = s"
    using Cons.prems
    by (cases ev)
       (auto simp: sendFn_def closeFn_def on_data_def on_end_def on_finish_def on_error_def
          on_status_def assert_def close_def Let_def split: StatusObject.splits)
  then show ?case using Cons by simp
qed

lemma run_before_timer:
  "\<not> closed s \<Longrightarrow> Timeout \<notin> set evs \<Longrightarrow>
     delivered (run m w evs s) =
     delivered s @ map OnMessage (messagesBeforeClose evs) @
       closeDelivery (firstCloseTrigger m evs)"
proof (induction evs arbitrary: s)
  case Nil
  show ?case by (simp add: closeDelivery_def)
next
  case (Cons ev evs)
  have rest: "Timeout \<notin> set evs" using Cons.prems by simp
  have closing: "delivered (run m w evs (close err s)) = delivered s @ [OnClose err]" for err
  proof -
    have "closed (close err s)" by (rule closed_close)
    then have "run m w evs (close err s) = close err s"
      using rest by (rule run_closed_before_timer)
    then show ?thesis
      using Cons.prems by (simp add: close_def callOnClose_def Let_def)
  qed
  show ?case
  proof (cases ev)
    case (Send msg)
    then show ?thesis using Cons.prems rest Cons.IH [of "snd (sendFn w msg s)"]
      by (simp add: sendFn_def Let_def split: option.splits)
  next
    case Close
    then show ?thesis by (simp add: closeFn_def closing closeDelivery_def)
  next
    case (GrpcData msg)
    then show ?thesis using Cons.prems rest Cons.IH [of "on_data msg s"]
      by (simp add: on_data_def callOnMessage_def)
  next
    case GrpcEnd
    then show ?thesis by (simp add: on_end_def closing closeDelivery_def)
  next
    case GrpcFinish
    then show ?thesis using Cons.prems rest Cons.IH [of s]
      by (simp add: on_finish_def)
  next
    case (GrpcError e)
    then show ?thesis by (simp add: on_error_def closing closeDelivery_def)
  next
    case (GrpcStatus st)
    then show ?thesis using Cons.prems rest Cons.IH [of s]
      by (simp add: on_status_def split: StatusObject.splits)
  next
    case Timeout
    then show ?thesis using Cons.prems by simp
  qed
qed

lemma strictlyOrdered_around_open:
  "afterOpen rest \<Longrightarrow>
     strictlyOrdered (map OnMessage ms @ closeDelivery t @ [OnOpen] @ rest) =
     (ms = [] \<and> t = None)"
  by (cases ms; cases t) (simp_all add: closeDelivery_def)

lemma run_through_timer:
  assumes "\<not> closed s" and "openTimer s" and "delivered s = []" and "Timeout \<notin> set pre"
  shows "delivered (run m w (pre @ Timeout # post) s) =
     map OnMessage (messagesBeforeClose pre) @ closeDelivery (firstCloseTrigger m pre) @
     [OnOpen] @
     (if firstCloseTrigger m pre = None
      then map OnMessage (messagesBeforeClose post) @ closeDelivery (firstCloseTrigger m post)
      else [])"
proof -
  let ?s1 = "run m w pre s"
  let ?s2 = "on_timeout (?s1\<lparr>openTimer := False\<rparr>)"
  have d1: "delivered ?s1 =
      map OnMessage (messagesBeforeClose pre) @ closeDelivery (firstCloseTrigger m pre)"
    using run_before_timer [OF assms(1) assms(4), of m w] by (simp add: assms(3))
  have t1: "openTimer ?s1" using assms(2,4) by (simp add: run_openTimer)
  have c1: "closed ?s1 = (firstCloseTrigger m pre \<noteq> None)"
    using assms(1) by (simp add: run_closed)
  have step: "run m w (pre @ Timeout # post) s = run m w post ?s2"
    by (simp add: run_append t1)
  have d2: "delivered ?s2 =
      map OnMessage (messagesBeforeClose pre) @ closeDelivery (firstCloseTrigger m pre) @
      [OnOpen]"
    by (simp add: on_timeout_def callOnOpen_def d1)
  have t2: "\<not> openTimer ?s2" by (simp add: on_timeout_def callOnOpen_def)
  have c2: "closed ?s2 = (firstCloseTrigger m pre \<noteq> None)"
    by (simp add: on_timeout_def callOnOpen_def c1)
  show ?thesis
  proof (cases "firstCloseTrigger m pre = None")
    case True
    then have "\<not> closed ?s2" by (simp add: c2)
    from run_timerless [OF this t2, of m w post] True show ?thesis
      by (simp only: step d2) simp
  next
    case False
    then have "closed ?s2" by (simp add: c2)
    then have "run m w post ?s2 = ?s2" using t2 by (rule run_closed_timerless)
    with False show ?thesis by (simp only: step d2) simp
  qed
qed

text \<open>
  Claim C2, amended. For a stream returned by \<^verbatim>\<open>openStream\<close> and any list of events: the
  open is delivered exactly once, at the moment the timer callback runs, after whatever
  was delivered for the events handled before it and whether or not the stream is closed
  by then. The deliveries are the open, then zero or more messages, then at most one
  close and nothing after it, if and only if no message arrives and no close trigger
  fires before the timer callback runs; calls of \<^verbatim>\<open>send\<close> and the events \<^verbatim>\<open>finish\<close> and
  \<^verbatim>\<open>status\<close> before it do no harm. In every case the deliveries other than the open are
  the messages received before the first close trigger, in order, followed by one close
  for that trigger if there is one, so that no message and no second close follows a
  close.
\<close>

theorem delivery_order:
  assumes "fst (openStream v conn rpcName tok) = Inr s"
  shows "(Timeout \<notin> set pre \<longrightarrow>
            delivered (run m w (pre @ Timeout # post) s) =
              map OnMessage (messagesBeforeClose pre) @ closeDelivery (firstCloseTrigger m pre) @
              [OnOpen] @
              (if firstCloseTrigger m pre = None
               then map OnMessage (messagesBeforeClose post) @
                    closeDelivery (firstCloseTrigger m post)
               else []) \<and>
            strictlyOrdered (delivered (run m w (pre @ Timeout # post) s)) =
              (messagesBeforeClose pre = [] \<and> firstCloseTrigger m pre = None)) \<and>
         (Timeout \<notin> set evs \<longrightarrow>
            delivered (run m w evs s) =
              map OnMessage (messagesBeforeClose evs) @ closeDelivery (firstCloseTrigger m evs)) \<and>
         filter isOpen (delivered (run m w evs s)) = (if Timeout \<in> set evs then [OnOpen] else []) \<and>
         filter (\<lambda>d. \<not> isOpen d) (delivered (run m w evs s)) =
           map OnMessage (messagesBeforeClose evs) @ closeDelivery (firstCloseTrigger m evs) \<and>
         delivered (run m w (Timeout # evs) s) =
           OnOpen # map OnMessage (messagesBeforeClose evs) @
             closeDelivery (firstCloseTrigger m evs) \<and>
         strictlyOrdered (delivered (run m w (Timeout # evs) s))"
proof -
  have s: "s = \<lparr>closed = False, openTimer = True, delivered = [], grpcCalls = []\<rparr>"
    using assms by (rule openStream_initial)
  have init: "\<not> closed s" "openTimer s" "delivered s = []"
    by (simp_all add: s)
  have through: "delivered (run m w (pre @ Timeout # post) s) =
      map OnMessage (messagesBeforeClose pre) @ closeDelivery (firstCloseTrigger m pre) @
      [OnOpen] @
      (if firstCloseTrigger m pre = None
       then map OnMessage (messagesBeforeClose post) @
            closeDelivery (firstCloseTrigger m post)
       else [])"
    if "Timeout \<notin> set pre"
    using init that by (rule run_through_timer)
  have "afterOpen (if firstCloseTrigger m pre = None
       then map OnMessage (messagesBeforeClose post) @
            closeDelivery (firstCloseTrigger m post)
       else [])"
    by (simp add: afterOpen_messages_close)
  then have ordered: "strictlyOrdered (delivered (run m w (pre @ Timeout # post) s)) =
      (messagesBeforeClose pre = [] \<and> firstCloseTrigger m pre = None)"
    if "Timeout \<notin> set pre"
    by (simp only: through [OF that] strictlyOrdered_around_open)
  have before: "delivered (run m w evs s) =
      map OnMessage (messagesBeforeClose evs) @ closeDelivery (firstCloseTrigger m evs)"
    if "Timeout \<notin> set evs"
    using run_before_timer [OF init(1) that, of m w] by (simp add: init(3))
  have opens: "filter isOpen (delivered (run m w evs s)) =
      (if Timeout \<in> set evs then [OnOpen] else [])"
    by (simp add: run_isOpen s)
  have others: "filter (\<lambda>d. \<not> isOpen d) (delivered (run m w evs s)) =
      map OnMessage (messagesBeforeClose evs) @ closeDelivery (firstCloseTrigger m evs)"
    by (simp add: run_open_nonopen s)
  have first: "delivered (run m w (Timeout # evs) s) =
      OnOpen # map OnMessage (messagesBeforeClose evs) @
        closeDelivery (firstCloseTrigger m evs)"
    by (simp add: s on_timeout_def callOnOpen_def run_timerless)
  have firstOrdered: "strictlyOrdered (delivered (run m w (Timeout # evs) s))"
    unfolding first by (simp add: afterOpen_messages_close)
  show ?thesis
  proof (intro conjI impI)
    assume "Timeout \<notin> set pre"
    then show "delivered (run m w (pre @ Timeout # post) s) =
      map OnMessage (messagesBeforeClose pre) @ closeDelivery (firstCloseTrigger m pre) @
      [OnOpen] @
      (if firstCloseTrigger m pre = None
       then map OnMessage (messagesBeforeClose post) @
            closeDelivery (firstCloseTrigger m post)
       else [])"
      by (rule through)
  next
    assume "Timeout \<notin> set pre"
    then show "strictlyOrdered (delivered (run m w (pre @ Timeout # post) s)) =
      (messagesBeforeClose pre = [] \<and> firstCloseTrigger m pre = None)"
      by (rule ordered)
  next
    assume "Timeout \<notin> set evs"
    then show "delivered (run m w evs s) =
      map OnMessage (messagesBeforeClose evs) @ closeDelivery (firstCloseTrigger m evs)"
      by (rule before)
  qed (rule opens others first firstOrdered)+
qed

text \<open>
  An instance of C2: a message is sent, the open is delivered, two messages arrive, the
  stream ends, and a third message and a \<^verbatim>\<open>close()\<close> come too late; and a run in which a
  message arrives before the timer callback runs, so that the message is delivered
  before the open.
\<close>

theorem delivery_order_witness:
  "delivered (run exampleMapCode exampleWrite
      [Send ''M1'', Timeout, GrpcData ''R1'', GrpcData ''R2'', GrpcEnd, GrpcData ''R3'', Close]
      \<lparr>closed = False, openTimer = True, delivered = [], grpcCalls = []\<rparr>) =
     [OnOpen, OnMessage ''R1'', OnMessage ''R2'', OnClose None] \<and>
   strictlyOrdered (delivered (run exampleMapCode exampleWrite
      [Send ''M1'', Timeout, GrpcData ''R1'', GrpcData ''R2'', GrpcEnd, GrpcData ''R3'', Close]
      \<lparr>closed = False, openTimer = True, delivered = [], grpcCalls = []\<rparr>)) \<and>
   delivered (run exampleMapCode exampleWrite
      [GrpcData ''R1'', Timeout, GrpcData ''R2'', GrpcEnd]
      \<lparr>closed = False, openTimer = True, delivered = [], grpcCalls = ([] :: string GrpcCall list)\<rparr>) =
     [OnMessage ''R1'', OnOpen, OnMessage ''R2'', OnClose None] \<and>
   \<not> strictlyOrdered (delivered (run exampleMapCode exampleWrite
      [GrpcData ''R1'', Timeout, GrpcData ''R2'', GrpcEnd]
      \<lparr>closed = False, openTimer = True, delivered = [], grpcCalls = ([] :: string GrpcCall list)\<rparr>))"
proof -
  let ?s = "\<lparr>closed = False, openTimer = True, delivered = [], grpcCalls = []\<rparr>"
  note good = delivery_order [OF example_openStream, where m = exampleMapCode
      and w = exampleWrite and pre = "[Send ''M1'']"
      and post = "[GrpcData ''R1'', GrpcData ''R2'', GrpcEnd, GrpcData ''R3'', Close]"
      and evs = "[]", THEN conjunct1, rule_format]
  note bad = delivery_order [OF example_openStream, where m = exampleMapCode
      and w = exampleWrite and pre = "[GrpcData ''R1'']"
      and post = "[GrpcData ''R2'', GrpcEnd]"
      and evs = "[] :: (string, string) StreamEvent list", THEN conjunct1, rule_format]
  have 1: "delivered (run exampleMapCode exampleWrite
      ([Send ''M1''] @ Timeout #
        [GrpcData ''R1'', GrpcData ''R2'', GrpcEnd, GrpcData ''R3'', Close]) ?s) =
     [OnOpen, OnMessage ''R1'', OnMessage ''R2'', OnClose None] \<and>
     strictlyOrdered (delivered (run exampleMapCode exampleWrite
      ([Send ''M1''] @ Timeout #
        [GrpcData ''R1'', GrpcData ''R2'', GrpcEnd, GrpcData ''R3'', Close]) ?s))"
    using good by (simp add: closeDelivery_def)
  have 2: "delivered (run exampleMapCode exampleWrite
      ([GrpcData ''R1''] @ Timeout # [GrpcData ''R2'', GrpcEnd])
      \<lparr>closed = False, openTimer = True, delivered = [],
        grpcCalls = ([] :: string GrpcCall list)\<rparr>) =
     [OnMessage ''R1'', OnOpen, OnMessage ''R2'', OnClose None] \<and>
     \<not> strictlyOrdered (delivered (run exampleMapCode exampleWrite
      ([GrpcData ''R1''] @ Timeout # [GrpcData ''R2'', GrpcEnd])
      \<lparr>closed = False, openTimer = True, delivered = [],
        grpcCalls = ([] :: string GrpcCall list)\<rparr>))"
    using bad by (simp add: closeDelivery_def)
  from 1 2 show ?thesis by simp
qed

text \<open>
  C2 as it was stated fails when the caller closes the stream before the timer callback
  has run: the close is delivered first and the open after it.
\<close>

theorem delivery_order_counterexample:
  "fst (openStream exampleVersions exampleConnection ''Listen'' None) =
     Inr \<lparr>closed = False, openTimer = True, delivered = [], grpcCalls = []\<rparr> \<and>
   delivered (run exampleMapCode exampleWrite [Close, Timeout]
     \<lparr>closed = False, openTimer = True, delivered = [], grpcCalls = []\<rparr>) =
     [OnClose None, OnOpen] \<and>
   \<not> strictlyOrdered (delivered (run exampleMapCode exampleWrite [Close, Timeout]
     \<lparr>closed = False, openTimer = True, delivered = [], grpcCalls = []\<rparr>))"
  by (simp add: example_openStream closeFn_def close_def callOnClose_def on_timeout_def
        callOnOpen_def Let_def)

text \<open>
  Claim C6. On a stream that is not closed, \<^verbatim>\<open>send\<close> calls the \<^verbatim>\<open>write\<close> of the transport
  with the message; if \<^verbatim>\<open>write\<close> throws, \<^verbatim>\<open>send\<close> throws the same exception and the stream
  stays open, with nothing delivered. On a closed stream \<^verbatim>\<open>send\<close> returns normally,
  does not call \<^verbatim>\<open>write\<close> and changes nothing. On the stream as \<^verbatim>\<open>openStream\<close> returns it,
  before the timer has delivered the open, \<^verbatim>\<open>send\<close> calls \<^verbatim>\<open>write\<close> all the same.
\<close>

theorem send_forwards_or_drops:
  "(\<not> closed s \<and> w msg = None \<longrightarrow>
      sendFn w msg s = (Inr (), s\<lparr>grpcCalls := grpcCalls s @ [Write msg]\<rparr>)) \<and>
   (\<not> closed s \<and> w msg = Some e \<longrightarrow>
      sendFn w msg s = (Inl e, s\<lparr>grpcCalls := grpcCalls s @ [Write msg]\<rparr>) \<and>
      \<not> closed (snd (sendFn w msg s)) \<and>
      delivered (snd (sendFn w msg s)) = delivered s) \<and>
   (closed s \<longrightarrow> sendFn w msg s = (Inr (), s)) \<and>
   (fst (openStream v conn rpcName tok) = Inr s \<longrightarrow>
      openTimer s \<and> delivered s = [] \<and> grpcCalls (snd (sendFn w msg s)) = [Write msg])"
proof -
  have "openTimer s \<and> delivered s = [] \<and> grpcCalls (snd (sendFn w msg s)) = [Write msg]"
    if "fst (openStream v conn rpcName tok) = Inr s"
    using openStream_initial [OF that]
    by (simp add: sendFn_def Let_def split: option.splits)
  then show ?thesis
    by (simp add: sendFn_def Let_def)
qed

text \<open>
  An instance of C6: a message that is written, one that the transport refuses, and one
  sent after the close.
\<close>

theorem send_forwards_or_drops_witness:
  "sendFn exampleWrite ''M1''
     \<lparr>closed = False, openTimer = True, delivered = [], grpcCalls = []\<rparr> =
     (Inr (), \<lparr>closed = False, openTimer = True, delivered = ([] :: (string, string) Delivery list),
               grpcCalls = [Write ''M1'']\<rparr>) \<and>
   sendFn exampleWrite ''''
     \<lparr>closed = False, openTimer = True, delivered = [], grpcCalls = []\<rparr> =
     (Inl (TransportThrew ''empty message''),
      \<lparr>closed = False, openTimer = True, delivered = ([] :: (string, string) Delivery list),
        grpcCalls = [Write '''']\<rparr>) \<and>
   sendFn exampleWrite ''M1''
     \<lparr>closed = True, openTimer = False, delivered = [OnOpen, OnClose None], grpcCalls = [EndCall]\<rparr> =
     (Inr (), \<lparr>closed = True, openTimer = False,
               delivered = [OnOpen, OnClose None :: (string, string) Delivery],
               grpcCalls = [EndCall]\<rparr>)"
  using
    send_forwards_or_drops [of
      "\<lparr>closed = False, openTimer = True, delivered = ([] :: (string, string) Delivery list),
        grpcCalls = []\<rparr>"
      exampleWrite "''M1''" "TransportThrew ''empty message''"
      exampleVersions exampleConnection "''Listen''" None]
    send_forwards_or_drops [of
      "\<lparr>closed = False, openTimer = True, delivered = ([] :: (string, string) Delivery list),
        grpcCalls = []\<rparr>"
      exampleWrite "''''" "TransportThrew ''empty message''"
      exampleVersions exampleConnection "''Listen''" None]
    send_forwards_or_drops [of
      "\<lparr>closed = True, openTimer = False,
        delivered = [OnOpen, OnClose None :: (string, string) Delivery],
        grpcCalls = [EndCall]\<rparr>"
      exampleWrite "''M1''" "TransportThrew ''empty message''"
      exampleVersions exampleConnection "''Listen''" None]
  by (simp add: exampleWrite_def)

text \<open>
  Claim C9. On a closed stream the events \<^verbatim>\<open>finish\<close> and \<^verbatim>\<open>status\<close> pass their assertion
  and change nothing. On a stream that is not closed their assertion fails: the handler
  throws the assertion failure, the stream stays open and nothing is delivered to the
  caller.
\<close>

theorem post_close_signals_asserted:
  "(closed s \<longrightarrow>
      on_finish s = (Inr (), s) \<and> on_status (StatusObject c d) s = (Inr (), s) \<and>
      dispatch m w GrpcFinish s = (Inr (), s) \<and>
      dispatch m w (GrpcStatus (StatusObject c d)) s = (Inr (), s)) \<and>
   (\<not> closed s \<longrightarrow>
      on_finish s = (Inl (AssertionFailed FinishWithoutClose), s) \<and>
      on_status (StatusObject c d) s = (Inl (AssertionFailed (StatusBeforeEnd c d)), s) \<and>
      dispatch m w GrpcFinish s = (Inl (AssertionFailed FinishWithoutClose), s) \<and>
      dispatch m w (GrpcStatus (StatusObject c d)) s =
        (Inl (AssertionFailed (StatusBeforeEnd c d)), s))"
  by (simp add: on_finish_def on_status_def assert_def)

text \<open>
  An instance of C9: \<^verbatim>\<open>finish\<close> after the close, and \<^verbatim>\<open>status\<close> on an open stream.
\<close>

theorem post_close_signals_asserted_witness:
  "on_finish \<lparr>closed = True, openTimer = False,
      delivered = [OnOpen, OnClose None :: (string, string) Delivery],
      grpcCalls = [EndCall :: string GrpcCall]\<rparr> =
     (Inr (), \<lparr>closed = True, openTimer = False, delivered = [OnOpen, OnClose None],
               grpcCalls = [EndCall]\<rparr>) \<and>
   on_status (StatusObject 0 ''OK'')
     \<lparr>closed = False, openTimer = False,
      delivered = [OnOpen :: (string, string) Delivery], grpcCalls = ([] :: string GrpcCall list)\<rparr> =
     (Inl (AssertionFailed (StatusBeforeEnd 0 ''OK'')),
      \<lparr>closed = False, openTimer = False, delivered = [OnOpen], grpcCalls = []\<rparr>)"
  using
    post_close_signals_asserted [of
      "\<lparr>closed = True, openTimer = False,
        delivered = [OnOpen, OnClose None :: (string, string) Delivery],
        grpcCalls = [EndCall :: string GrpcCall]\<rparr>" 0 "''OK''" exampleMapCode exampleWrite]
    post_close_signals_asserted [of
      "\<lparr>closed = False, openTimer = False,
        delivered = [OnOpen :: (string, string) Delivery],
        grpcCalls = ([] :: string GrpcCall list)\<rparr>" 0 "''OK''" exampleMapCode exampleWrite]
  by simp

end
